theory Spec2Isabelle
  imports Main "HOL-Library.Word" "HOL-Library.AList"
begin

unbundle bit_operations_syntax

text \<open>
  A shallow embedding of the promotion core of gitops-promoter: the name and label
  derivation of \<open>internal/utils\<close>, the PromotionStrategy reconciler
  (\<open>Reconcile\<close>, \<open>createOrGetProposedCommit\<close>, \<open>calculateStatus\<close>, \<open>copyCommitStatuses\<close>)
  and the PullRequest reconciler, followed by the properties proved of them.
\<close>

section \<open>Go run-time conventions\<close>

text \<open>
  Go strings are byte sequences, so a Go string is a \<^typ>\<open>string\<close> (a list of 8-bit
  characters) and \<open>len\<close> is \<^const>\<open>length\<close>.  Indexing a string or a slice out of range
  panics; the panic is a value of the model.  Logging is not modelled, and neither is the
  \<open>context.Context\<close> argument where it only feeds the logger.
\<close>

datatype panic = IndexOutOfRange | NilMapAssignment | NilPointerDereference

text \<open>\<open>s[i]\<close> with Go's bounds check.\<close>

definition index :: "'a list \<Rightarrow> int \<Rightarrow> panic + 'a" where
  "index xs i = (if 0 \<le> i \<and> i < int (length xs) then Inr (xs ! nat i) else Inl IndexOutOfRange)"

section \<open>internal/utils: name and label derivation\<close>

subsection \<open>The regular expression \<open>m1 = [^a-zA-Z0-9]+\<close>\<close>

definition isAlnum :: "char \<Rightarrow> bool" where
  "isAlnum c = (let n = (of_char c :: nat) in
     (97 \<le> n \<and> n \<le> 122) \<or> (65 \<le> n \<and> n \<le> 90) \<or> (48 \<le> n \<and> n \<le> 57))"

text \<open>
  \<open>m1.ReplaceAllString(name, "-")\<close>: scanning from the left, every leftmost-longest match
  of \<open>[^a-zA-Z0-9]+\<close> is replaced by \<open>-\<close>.  The expression is matched rune by rune, but
  every byte of a multi-byte (or invalid) UTF-8 sequence is outside \<open>[a-zA-Z0-9]\<close>, so a
  maximal run of non-matching runes is a maximal run of non-alphanumeric bytes.
\<close>

function m1_ReplaceAllString :: "string \<Rightarrow> string" where
  "m1_ReplaceAllString [] = []"
| "m1_ReplaceAllString (c # cs) =
     (if isAlnum c then c # m1_ReplaceAllString cs
      else CHR ''-'' # m1_ReplaceAllString (dropWhile (\<lambda>d. \<not> isAlnum d) cs))"
  by pat_completeness auto
termination
  by (relation "measure length") (auto simp: length_dropWhile_le less_Suc_eq_le)

subsection \<open>\<open>strings.ToLower\<close>\<close>

text \<open>
  \<open>strings.ToLower\<close> on ASCII input maps \<open>A\<close>..\<open>Z\<close> to \<open>a\<close>..\<open>z\<close> byte by byte and
  leaves the other bytes alone.  Its only call site passes the result of
  \<open>m1.ReplaceAllString\<close>, which is ASCII (lemma \<open>m1_ReplaceAllString_chars\<close> below).
\<close>

definition toLowerByte :: "char \<Rightarrow> char" where
  "toLowerByte c = (let n = (of_char c :: nat) in
     if 65 \<le> n \<and> n \<le> 90 then char_of (n + 32) else c)"

definition strings_ToLower :: "string \<Rightarrow> string" where
  "strings_ToLower s = map toLowerByte s"

subsection \<open>\<open>hash/fnv\<close>: 32-bit FNV-1a, and \<open>fmt.Sprintf("%x", ...)\<close>\<close>

definition fnv_New32a :: "32 word" where
  "fnv_New32a = 2166136261"

definition fnv_prime32 :: "32 word" where
  "fnv_prime32 = 16777619"

text \<open>\<open>Write\<close>: for every byte, \<open>hash ^= byte; hash *= prime32\<close> on \<open>uint32\<close>.\<close>

fun fnv32a_Write :: "32 word \<Rightarrow> string \<Rightarrow> 32 word" where
  "fnv32a_Write h [] = h"
| "fnv32a_Write h (c # cs) = fnv32a_Write ((h XOR of_nat (of_char c)) * fnv_prime32) cs"

definition hexDigit :: "nat \<Rightarrow> char" where
  "hexDigit d = ''0123456789abcdef'' ! d"

text \<open>\<open>%x\<close> of an unsigned integer: lower-case hexadecimal, no leading zeros, \<open>0\<close> for zero.\<close>

function fmt_x :: "nat \<Rightarrow> string" where
  "fmt_x n = (if n < 16 then [hexDigit n] else fmt_x (n div 16) @ [hexDigit (n mod 16)])"
  by pat_completeness auto
termination
  by (relation "measure id") auto

declare fmt_x.simps [simp del]

subsection \<open>\<open>TruncateString\<close> and \<open>TruncateStringFromBeginning\<close>\<close>

text \<open>
  \<open>for _, char := range str\<close> decodes UTF-8: a well-formed sequence of 1 to 4 bytes is one
  rune, and any other byte is the rune U+FFFD of width 1.  \<open>runeWidth\<close> is the width of the
  first rune of a non-empty string and whether it is well-formed; \<open>runes\<close> lists
  \<open>string(char)\<close> for each iteration (the re-encoded rune: the same bytes when well-formed,
  \<open>EF BF BD\<close> otherwise).
\<close>

definition inRange :: "string \<Rightarrow> nat \<Rightarrow> nat \<Rightarrow> nat \<Rightarrow> bool" where
  "inRange s k lo hi = (k < length s \<and> lo \<le> (of_char (s ! k) :: nat) \<and> (of_char (s ! k) :: nat) \<le> hi)"

definition runeWidth :: "string \<Rightarrow> bool \<times> nat" where
  "runeWidth s = (let b0 = (of_char (hd s) :: nat) in
     if b0 < 0x80 then (True, 1)
     else if 0xC2 \<le> b0 \<and> b0 \<le> 0xDF then
       (if inRange s 1 0x80 0xBF then (True, 2) else (False, 1))
     else if 0xE0 \<le> b0 \<and> b0 \<le> 0xEF then
       (if inRange s 1 (if b0 = 0xE0 then 0xA0 else 0x80) (if b0 = 0xED then 0x9F else 0xBF)
           \<and> inRange s 2 0x80 0xBF
        then (True, 3) else (False, 1))
     else if 0xF0 \<le> b0 \<and> b0 \<le> 0xF4 then
       (if inRange s 1 (if b0 = 0xF0 then 0x90 else 0x80) (if b0 = 0xF4 then 0x8F else 0xBF)
           \<and> inRange s 2 0x80 0xBF \<and> inRange s 3 0x80 0xBF
        then (True, 4) else (False, 1))
     else (False, 1))"

definition runeError :: string where
  "runeError = [char_of (0xEF :: nat), char_of (0xBF :: nat), char_of (0xBD :: nat)]"

function runes :: "string \<Rightarrow> string list" where
  "runes s = (if s = [] then []
     else (if fst (runeWidth s) then take (snd (runeWidth s)) s else runeError)
          # runes (drop (snd (runeWidth s)) s))"
  by pat_completeness auto
termination
  by (relation "measure length") (auto simp: runeWidth_def Let_def)

declare runes.simps [simp del]

text \<open>The loop of \<open>TruncateString\<close>, over the runes still to visit.\<close>

fun TruncateString_loop :: "string list \<Rightarrow> string \<Rightarrow> int \<Rightarrow> int \<Rightarrow> string" where
  "TruncateString_loop [] truncated count len = truncated"
| "TruncateString_loop (char # rest) truncated count len =
     (let truncated = truncated @ char; count = count + 1
      in if count \<ge> len then truncated else TruncateString_loop rest truncated count len)"

definition TruncateString :: "string \<Rightarrow> int \<Rightarrow> string" where
  "TruncateString str len = (if len \<le> 0 then [] else TruncateString_loop (runes str) [] 0 len)"

text \<open>Truncate from the front of the string: \<open>str[len(str)-length:]\<close> on bytes.\<close>

definition TruncateStringFromBeginning :: "string \<Rightarrow> int \<Rightarrow> string" where
  "TruncateStringFromBeginning str len =
     (if len \<le> 0 then []
      else if int (length str) \<le> len then str
      else drop (nat (int (length str) - len)) str)"

subsection \<open>\<open>KubeSafeUniqueName\<close> and \<open>KubeSafeLabel\<close>\<close>

definition KubeSafeUniqueName :: "string \<Rightarrow> panic + string" where
  "KubeSafeUniqueName name0 =
     (let name = m1_ReplaceAllString name0;
          name = strings_ToLower name;
          hash = fmt_x (unat (fnv32a_Write fnv_New32a name))
      in case index name (int (length name) - 1) of
           Inl p \<Rightarrow> Inl p
         | Inr c \<Rightarrow>
             (let name = (if c = CHR ''-'' then take (nat (int (length name) - 1)) name else name);
                  name = name @ ''-'' @ hash
              in Inr (TruncateString name (255 - int (length hash) - 1))))"

definition KubeSafeLabel :: "string \<Rightarrow> panic + string" where
  "KubeSafeLabel name0 =
     (if name0 = [] then Inr []
      else let name = m1_ReplaceAllString name0;
               name = TruncateStringFromBeginning name 63
           in case index name 0 of
                Inl p \<Rightarrow> Inl p
              | Inr c \<Rightarrow> Inr (if c = CHR ''-'' then drop 1 name else name))"

section \<open>Errors, panics and the cluster as seen by a reconciler\<close>

text \<open>
  A Go \<open>error\<close> returned by the Kubernetes client or the SCM provider is a value of \<open>err\<close>:
  the code only ever asks \<open>errors.IsNotFound\<close> (and \<open>retry.RetryOnConflict\<close> asks
  \<open>errors.IsConflict\<close>), so every other error is \<open>Failure\<close>; \<open>Errorf\<close> is an error built by
  \<open>fmt.Errorf\<close>.
\<close>

datatype err = NotFound | Conflict | Failure | Errorf string

type_synonym time = int

type_synonym key = "string \<times> string"

text \<open>
  A Go \<open>map[string]string\<close>; \<open>None\<close> is the nil map.  Reading a missing key (or the nil map)
  gives the empty string; assigning into the nil map panics.
\<close>

type_synonym labels = "(string \<times> string) list option"

definition getLabel :: "labels \<Rightarrow> string \<Rightarrow> string" where
  "getLabel m k = (case m of None \<Rightarrow> []
     | Some kvs \<Rightarrow> (case map_of kvs k of None \<Rightarrow> [] | Some v \<Rightarrow> v))"

definition setLabel :: "labels \<Rightarrow> string \<Rightarrow> string \<Rightarrow> panic + labels" where
  "setLabel m k v = (case m of None \<Rightarrow> Inl NilMapAssignment
     | Some kvs \<Rightarrow> Inr (Some (AList.update k v kvs)))"

subsection \<open>api/v1alpha1: the resource kinds, with the fields the reconcilers touch\<close>

record ObjectReference =
  ref_Name :: string
  ref_Namespace :: string

record Repository =
  repo_Owner :: string
  repo_Name :: string
  repo_ScmProviderRef :: ObjectReference

record CommitStatusSelector =
  Key :: string

record Environment =
  Branch :: string
  AutoMerge :: "bool option"
  env_ActiveCommitStatuses :: "CommitStatusSelector list"
  env_ProposedCommitStatuses :: "CommitStatusSelector list"

text \<open>
  Modelled from the spec: the method \<open>Environment.GetAutoMerge\<close> lives in api/v1alpha1, which
  is not among the source files; the specification gives the flag as optional with default true.
\<close>

definition GetAutoMerge :: "Environment \<Rightarrow> bool" where
  "GetAutoMerge e = (case AutoMerge e of None \<Rightarrow> True | Some b \<Rightarrow> b)"

record PromotionStrategySpec =
  RepositoryReference :: Repository
  Environments :: "Environment list"
  ActiveCommitStatuses :: "CommitStatusSelector list"
  ProposedCommitStatuses :: "CommitStatusSelector list"

record ProposedCommitShaState =
  Sha :: string
  CommitTime :: time

record PromotionStrategyCommitStatus =
  rollup_State :: string
  rollup_Sha :: string

record PromotionStrategyBranchStateStatus =
  Dry :: ProposedCommitShaState
  Hydrated :: ProposedCommitShaState
  CommitStatus :: PromotionStrategyCommitStatus

record EnvironmentStatus =
  es_Branch :: string
  Active :: PromotionStrategyBranchStateStatus
  Proposed :: PromotionStrategyBranchStateStatus
  LastHealthyDryShas :: "(string \<times> time) list"

record PromotionStrategy =
  ps_Name :: string
  ps_Namespace :: string
  ps_Spec :: PromotionStrategySpec
  ps_Status :: "EnvironmentStatus list"

record ProposedCommitBranchState =
  pcb_Dry :: ProposedCommitShaState
  pcb_Hydrated :: ProposedCommitShaState

record ProposedCommitStatus =
  pc_Active :: ProposedCommitBranchState
  pc_Proposed :: ProposedCommitBranchState

record ProposedCommitSpec =
  pcs_RepositoryReference :: Repository
  ProposedBranch :: string
  ActiveBranch :: string

record ProposedCommit =
  pc_Name :: string
  pc_Namespace :: string
  pc_OwnerReferences :: "(string \<times> string) list"
  pc_Labels :: labels
  pc_Spec :: ProposedCommitSpec
  pc_Status :: ProposedCommitStatus

record CommitStatusSpec =
  css_RepositoryReference :: Repository
  css_Sha :: string
  css_Name :: string
  css_Description :: string
  css_State :: string
  css_Url :: string

record CommitStatus =
  cs_Name :: string
  cs_Namespace :: string
  cs_Annotations :: labels
  cs_Labels :: labels
  cs_Spec :: CommitStatusSpec
  cs_Status_State :: string

record PullRequestSpec =
  prs_RepositoryReference :: Repository
  Title :: string
  TargetBranch :: string
  SourceBranch :: string
  Description :: string
  prs_State :: string

record PullRequestStatus =
  ID :: string
  prst_State :: string
  PRCreationTime :: time
  ObservedGeneration :: int

record PullRequest =
  pr_Name :: string
  pr_Namespace :: string
  pr_Labels :: labels
  Generation :: int
  DeletionTimestamp :: "time option"
  Finalizers :: "string list"
  pr_Spec :: PullRequestSpec
  pr_Status :: PullRequestStatus

text \<open>
  Modelled from the spec: the constants \<open>PullRequestOpen\<close>, \<open>PullRequestMerged\<close> and
  \<open>PullRequestClosed\<close> are declared in api/v1alpha1; the specification gives the states as
  \<open>open\<close>, \<open>merged\<close> and \<open>closed\<close>.
\<close>

definition PullRequestOpen :: string where "PullRequestOpen = ''open''"
definition PullRequestMerged :: string where "PullRequestMerged = ''merged''"
definition PullRequestClosed :: string where "PullRequestClosed = ''closed''"

text \<open>The part of an \<open>ScmProvider\<close> that the pull-request reconciler reads.\<close>

record ScmProvider =
  scm_Namespace :: string
  scm_SecretRef_Name :: string
  scm_GitHub :: "string option"
  scm_Fake :: bool

datatype PullRequestProvider = GithubPullRequestProvider string | FakePullRequestProvider

record Result =
  Requeue :: bool
  RequeueAfter :: int

definition Second :: int where "Second = 1000000000"

definition emptyResult :: Result where
  "emptyResult = \<lparr>Requeue = False, RequeueAfter = 0\<rparr>"

text \<open>
  \<open>cmd/main.go\<close> declares the flag \<open>promotion-strategy-requeue-duration\<close> with the default
  \<open>"60s"\<close>, parses it with \<open>time.ParseDuration\<close> and hands the result to the
  PromotionStrategy reconciler as \<open>Config.RequeueDuration\<close>.  This is that duration with the
  flag left at its default; a \<open>time.Duration\<close> counts nanoseconds.
\<close>

definition promotionStrategyRequeueDuration :: int where
  "promotionStrategyRequeueDuration = 60 * Second"

subsection \<open>Calls to the outside, and what comes back\<close>

text \<open>
  A reconciler acts on the cluster only through the controller-runtime client (and, for pull
  requests, the SCM provider).  Every such call is recorded in a log, in order; the state of a
  run is that log.  What a call returns is decided by the \<open>world\<close>: for each kind of call, a
  function of the log so far and of the request.  Nothing is assumed about it, so the
  informer cache may lag behind writes, other actors may change objects between two calls, and
  any call may fail (a cancelled context is a failed call).  A \<open>Get\<close> or \<open>List\<close> fills the
  object it is given with the answer.  A write (\<open>Create\<close>, \<open>Update\<close>, \<open>Delete\<close>, a status
  update) answers with an error or nil and leaves the fields of the model as they were sent;
  so do the operations of the SCM provider, whose drivers are outside the source files and
  whose contract in the specification is \<open>FindOpen(pr) \<rightarrow> (found, err)\<close>,
  \<open>Create(...) \<rightarrow> (id, err)\<close>, and an error for \<open>Update\<close>, \<open>Merge\<close> and \<open>Close\<close>.
\<close>

datatype call =
    Get_PromotionStrategy key
  | Get_ProposedCommit key
  | Create_ProposedCommit ProposedCommit
  | Sleep int
  | List_CommitStatus string string
  | Get_CommitStatus key
  | Create_CommitStatus CommitStatus
  | Update_CommitStatus CommitStatus
  | List_PullRequest "(string \<times> string) list"
  | Get_PullRequest key
  | Update_PullRequest PullRequest
  | Update_PromotionStrategy_Status PromotionStrategy
  | Delete_PullRequest PullRequest
  | Update_PullRequest_Status PullRequest
  | Get_ScmProvider key
  | Get_Secret key
  | New_GithubPullRequestProvider string
  | Provider_FindOpen PullRequestProvider PullRequest
  | Provider_Create PullRequestProvider PullRequest
  | Provider_Update PullRequestProvider PullRequest
  | Provider_Merge PullRequestProvider PullRequest
  | Provider_Close PullRequestProvider PullRequest
  | Recorder_Event string
  | Now

record world =
  on_Get_PromotionStrategy :: "call list \<Rightarrow> key \<Rightarrow> err + PromotionStrategy"
  on_Get_ProposedCommit :: "call list \<Rightarrow> key \<Rightarrow> err + ProposedCommit"
  on_Create_ProposedCommit :: "call list \<Rightarrow> ProposedCommit \<Rightarrow> err option"
  on_rand_Intn :: "call list \<Rightarrow> int \<Rightarrow> int"
  on_List_CommitStatus :: "call list \<Rightarrow> string \<Rightarrow> string \<Rightarrow> err + CommitStatus list"
  on_Get_CommitStatus :: "call list \<Rightarrow> key \<Rightarrow> err + CommitStatus"
  on_Create_CommitStatus :: "call list \<Rightarrow> CommitStatus \<Rightarrow> err option"
  on_Update_CommitStatus :: "call list \<Rightarrow> CommitStatus \<Rightarrow> err option"
  on_List_PullRequest :: "call list \<Rightarrow> (string \<times> string) list \<Rightarrow> err + PullRequest list"
  on_Get_PullRequest :: "call list \<Rightarrow> key \<Rightarrow> err + PullRequest"
  on_Update_PullRequest :: "call list \<Rightarrow> PullRequest \<Rightarrow> err option"
  on_Update_PromotionStrategy_Status :: "call list \<Rightarrow> PromotionStrategy \<Rightarrow> err option"
  on_Delete_PullRequest :: "call list \<Rightarrow> PullRequest \<Rightarrow> err option"
  on_Update_PullRequest_Status :: "call list \<Rightarrow> PullRequest \<Rightarrow> err option"
  on_Get_ScmProvider :: "call list \<Rightarrow> key \<Rightarrow> err + ScmProvider"
  on_Get_Secret :: "call list \<Rightarrow> key \<Rightarrow> err option"
  on_New_GithubPullRequestProvider :: "call list \<Rightarrow> string \<Rightarrow> err option"
  on_Provider_FindOpen :: "call list \<Rightarrow> PullRequestProvider \<Rightarrow> PullRequest \<Rightarrow> err + bool"
  on_Provider_Create :: "call list \<Rightarrow> PullRequestProvider \<Rightarrow> PullRequest \<Rightarrow> err + string"
  on_Provider_Update :: "call list \<Rightarrow> PullRequestProvider \<Rightarrow> PullRequest \<Rightarrow> err option"
  on_Provider_Merge :: "call list \<Rightarrow> PullRequestProvider \<Rightarrow> PullRequest \<Rightarrow> err option"
  on_Provider_Close :: "call list \<Rightarrow> PullRequestProvider \<Rightarrow> PullRequest \<Rightarrow> err option"
  on_Now :: "call list \<Rightarrow> time"

text \<open>
  How a Go function ends: it returns (a value, or an \<open>error\<close>), it panics, or, for the one
  unbounded loop of the code, the model runs out of fuel before it returns.
\<close>

datatype 'a outcome = Return 'a | Error err | Panic panic | OutOfFuel

type_synonym 'a action = "call list \<Rightarrow> 'a outcome \<times> call list"

definition ret :: "'a \<Rightarrow> 'a action" where
  "ret x log = (Return x, log)"

definition throw :: "err \<Rightarrow> 'a action" where
  "throw e log = (Error e, log)"

definition outOfFuel :: "'a action" where
  "outOfFuel log = (OutOfFuel, log)"

definition orPanic :: "panic + 'a \<Rightarrow> 'a action" where
  "orPanic r log = (case r of Inl p \<Rightarrow> (Panic p, log) | Inr x \<Rightarrow> (Return x, log))"

definition andThen :: "'a action \<Rightarrow> ('a \<Rightarrow> 'b action) \<Rightarrow> 'b action" where
  "andThen m f log =
     (case m log of
        (Return x, log') \<Rightarrow> f x log'
      | (Error e, log') \<Rightarrow> (Error e, log')
      | (Panic p, log') \<Rightarrow> (Panic p, log')
      | (OutOfFuel, log') \<Rightarrow> (OutOfFuel, log'))"

text \<open>One call: the world answers from the log so far, and the call is appended to the log.\<close>

definition perform :: "call \<Rightarrow> (call list \<Rightarrow> 'r) \<Rightarrow> 'r action" where
  "perform c answer log = (Return (answer log), log @ [c])"

text \<open>\<open>if err != nil { return err }\<close> after a call that returns only an error.\<close>

definition check :: "err option action \<Rightarrow> unit action" where
  "check m = andThen m (\<lambda>e. case e of Some x \<Rightarrow> throw x | None \<Rightarrow> ret ())"

definition client_Get_PromotionStrategy :: "world \<Rightarrow> key \<Rightarrow> (err + PromotionStrategy) action" where
  "client_Get_PromotionStrategy w k =
     perform (Get_PromotionStrategy k) (\<lambda>log. on_Get_PromotionStrategy w log k)"

definition client_Get_ProposedCommit :: "world \<Rightarrow> key \<Rightarrow> (err + ProposedCommit) action" where
  "client_Get_ProposedCommit w k =
     perform (Get_ProposedCommit k) (\<lambda>log. on_Get_ProposedCommit w log k)"

definition client_Create_ProposedCommit :: "world \<Rightarrow> ProposedCommit \<Rightarrow> err option action" where
  "client_Create_ProposedCommit w pc =
     perform (Create_ProposedCommit pc) (\<lambda>log. on_Create_ProposedCommit w log pc)"

definition client_List_CommitStatus ::
    "world \<Rightarrow> string \<Rightarrow> string \<Rightarrow> (err + CommitStatus list) action" where
  "client_List_CommitStatus w label sha =
     perform (List_CommitStatus label sha) (\<lambda>log. on_List_CommitStatus w log label sha)"

definition client_Get_CommitStatus :: "world \<Rightarrow> key \<Rightarrow> (err + CommitStatus) action" where
  "client_Get_CommitStatus w k =
     perform (Get_CommitStatus k) (\<lambda>log. on_Get_CommitStatus w log k)"

definition client_Create_CommitStatus :: "world \<Rightarrow> CommitStatus \<Rightarrow> err option action" where
  "client_Create_CommitStatus w cs =
     perform (Create_CommitStatus cs) (\<lambda>log. on_Create_CommitStatus w log cs)"

definition client_Update_CommitStatus :: "world \<Rightarrow> CommitStatus \<Rightarrow> err option action" where
  "client_Update_CommitStatus w cs =
     perform (Update_CommitStatus cs) (\<lambda>log. on_Update_CommitStatus w log cs)"

definition client_List_PullRequest ::
    "world \<Rightarrow> (string \<times> string) list \<Rightarrow> (err + PullRequest list) action" where
  "client_List_PullRequest w sel =
     perform (List_PullRequest sel) (\<lambda>log. on_List_PullRequest w log sel)"

definition client_Get_PullRequest :: "world \<Rightarrow> key \<Rightarrow> (err + PullRequest) action" where
  "client_Get_PullRequest w k =
     perform (Get_PullRequest k) (\<lambda>log. on_Get_PullRequest w log k)"

definition client_Update_PullRequest :: "world \<Rightarrow> PullRequest \<Rightarrow> err option action" where
  "client_Update_PullRequest w pr =
     perform (Update_PullRequest pr) (\<lambda>log. on_Update_PullRequest w log pr)"

definition client_Update_PromotionStrategy_Status ::
    "world \<Rightarrow> PromotionStrategy \<Rightarrow> err option action" where
  "client_Update_PromotionStrategy_Status w ps =
     perform (Update_PromotionStrategy_Status ps) (\<lambda>log. on_Update_PromotionStrategy_Status w log ps)"

definition client_Delete_PullRequest :: "world \<Rightarrow> PullRequest \<Rightarrow> err option action" where
  "client_Delete_PullRequest w pr =
     perform (Delete_PullRequest pr) (\<lambda>log. on_Delete_PullRequest w log pr)"

definition client_Update_PullRequest_Status :: "world \<Rightarrow> PullRequest \<Rightarrow> err option action" where
  "client_Update_PullRequest_Status w pr =
     perform (Update_PullRequest_Status pr) (\<lambda>log. on_Update_PullRequest_Status w log pr)"

definition client_Get_ScmProvider :: "world \<Rightarrow> key \<Rightarrow> (err + ScmProvider) action" where
  "client_Get_ScmProvider w k =
     perform (Get_ScmProvider k) (\<lambda>log. on_Get_ScmProvider w log k)"

definition client_Get_Secret :: "world \<Rightarrow> key \<Rightarrow> err option action" where
  "client_Get_Secret w k = perform (Get_Secret k) (\<lambda>log. on_Get_Secret w log k)"

text \<open>
  \<open>retry.RetryOnConflict(retry.DefaultRetry, fn)\<close> of client-go: \<open>fn\<close> is run until it
  returns nil or an error that is not a conflict, at most \<open>Steps\<close> times (5 for
  \<open>DefaultRetry\<close>); after the last conflict that conflict is returned.  (client-go is a
  library outside the repository; this is its documented behaviour.)  The closure updates
  an object it has captured; that object is the state \<open>s\<close> threaded through the attempts.
\<close>

fun RetryOnConflict ::
    "nat \<Rightarrow> ('s \<Rightarrow> ('s \<times> err option) action) \<Rightarrow> 's \<Rightarrow> ('s \<times> err option) action" where
  "RetryOnConflict 0 fn s = ret (s, None)"
| "RetryOnConflict (Suc steps) fn s =
     andThen (fn s) (\<lambda>(s', e).
       if e = Some Conflict \<and> steps \<noteq> 0 then RetryOnConflict steps fn s' else ret (s', e))"

definition DefaultRetry_Steps :: nat where
  "DefaultRetry_Steps = 5"

section \<open>internal/utils: environment status lookup\<close>

definition GetEnvironmentsFromStatusInOrder :: "PromotionStrategy \<Rightarrow> EnvironmentStatus list" where
  "GetEnvironmentsFromStatusInOrder promotionStrategy =
     [statusEvents.
        specEnvironment \<leftarrow> Environments (ps_Spec promotionStrategy),
        statusEvents \<leftarrow> ps_Status promotionStrategy,
        Branch specEnvironment = es_Branch statusEvents]"

text \<open>
  The loops of the two lookups, over the environments from position \<open>i\<close> on.  A nil
  \<open>*EnvironmentStatus\<close> is \<open>None\<close>.
\<close>

fun GetPreviousEnvironmentStatusByBranch_loop ::
    "EnvironmentStatus list \<Rightarrow> string \<Rightarrow> nat \<Rightarrow> EnvironmentStatus list
       \<Rightarrow> int \<times> EnvironmentStatus option" where
  "GetPreviousEnvironmentStatusByBranch_loop environments currentBranch i [] = (-1, None)"
| "GetPreviousEnvironmentStatusByBranch_loop environments currentBranch i (environment # rest) =
     (if es_Branch environment = currentBranch \<and> int i - 1 \<ge> 0 \<and> length environments > 0
      then (int i + 1, Some (environments ! (i - 1)))
      else GetPreviousEnvironmentStatusByBranch_loop environments currentBranch (Suc i) rest)"

definition GetPreviousEnvironmentStatusByBranch ::
    "PromotionStrategy \<Rightarrow> string \<Rightarrow> int \<times> EnvironmentStatus option" where
  "GetPreviousEnvironmentStatusByBranch promotionStrategy currentBranch =
     (let environments = GetEnvironmentsFromStatusInOrder promotionStrategy
      in GetPreviousEnvironmentStatusByBranch_loop environments currentBranch 0 environments)"

fun GetEnvironmentStatusByBranch_loop ::
    "string \<Rightarrow> nat \<Rightarrow> EnvironmentStatus list \<Rightarrow> int \<times> EnvironmentStatus option" where
  "GetEnvironmentStatusByBranch_loop branch i [] = (-1, None)"
| "GetEnvironmentStatusByBranch_loop branch i (environment # rest) =
     (if es_Branch environment = branch then (int i, Some environment)
      else GetEnvironmentStatusByBranch_loop branch (Suc i) rest)"

definition GetEnvironmentStatusByBranch ::
    "PromotionStrategy \<Rightarrow> string \<Rightarrow> int \<times> EnvironmentStatus option" where
  "GetEnvironmentStatusByBranch promotionStrategy branch =
     GetEnvironmentStatusByBranch_loop branch 0 (GetEnvironmentsFromStatusInOrder promotionStrategy)"

fun UpsertEnvironmentStatus_loop ::
    "EnvironmentStatus list \<Rightarrow> EnvironmentStatus \<Rightarrow> nat \<Rightarrow> EnvironmentStatus list
       \<Rightarrow> EnvironmentStatus list" where
  "UpsertEnvironmentStatus_loop slc i idx [] = slc @ [i]"
| "UpsertEnvironmentStatus_loop slc i idx (ele # rest) =
     (if es_Branch ele = es_Branch i then slc[idx := i]
      else UpsertEnvironmentStatus_loop slc i (Suc idx) rest)"

definition UpsertEnvironmentStatus ::
    "EnvironmentStatus list \<Rightarrow> EnvironmentStatus \<Rightarrow> EnvironmentStatus list" where
  "UpsertEnvironmentStatus slc i =
     (if length slc = 0 then slc @ [i] else UpsertEnvironmentStatus_loop slc i 0 slc)"

section \<open>internal/controller: the PromotionStrategy reconciler\<close>

subsection \<open>\<open>createOrGetProposedCommit\<close>\<close>

text \<open>
  The loop that waits for the ProposedCommit's status.  It has no bound in the source; the
  model gives it \<open>fuel\<close> iterations and ends in \<open>OutOfFuel\<close> when they are used up.
\<close>

fun createOrGetProposedCommit_wait :: "nat \<Rightarrow> world \<Rightarrow> key \<Rightarrow> ProposedCommit action" where
  "createOrGetProposedCommit_wait 0 w k = outOfFuel"
| "createOrGetProposedCommit_wait (Suc fuel) w k =
     andThen (client_Get_ProposedCommit w k) (\<lambda>r.
       case r of
         Inl e \<Rightarrow> if e = NotFound then createOrGetProposedCommit_wait fuel w k else throw e
       | Inr pc \<Rightarrow>
           if Sha (pcb_Dry (pc_Active (pc_Status pc))) \<noteq> []
              \<and> Sha (pcb_Hydrated (pc_Active (pc_Status pc))) \<noteq> []
              \<and> Sha (pcb_Dry (pc_Proposed (pc_Status pc))) \<noteq> []
              \<and> Sha (pcb_Hydrated (pc_Proposed (pc_Status pc))) \<noteq> []
           then ret pc
           else andThen (\<lambda>log. perform (Sleep (on_rand_Intn w log 1000)) (\<lambda>_. ()) log) (\<lambda>_.
                  createOrGetProposedCommit_wait fuel w k))"

definition emptyShaState :: ProposedCommitShaState where
  "emptyShaState = \<lparr>Sha = [], CommitTime = 0\<rparr>"

definition emptyProposedCommitStatus :: ProposedCommitStatus where
  "emptyProposedCommitStatus =
     \<lparr>pc_Active = \<lparr>pcb_Dry = emptyShaState, pcb_Hydrated = emptyShaState\<rparr>,
      pc_Proposed = \<lparr>pcb_Dry = emptyShaState, pcb_Hydrated = emptyShaState\<rparr>\<rparr>"

definition createOrGetProposedCommit ::
    "nat \<Rightarrow> world \<Rightarrow> PromotionStrategy \<Rightarrow> Environment \<Rightarrow> ProposedCommit action" where
  "createOrGetProposedCommit fuel w ps environment =
     andThen (orPanic (KubeSafeUniqueName (ps_Name ps @ ''-'' @ Branch environment))) (\<lambda>pcName.
     andThen (client_Get_ProposedCommit w (ps_Namespace ps, pcName)) (\<lambda>r.
     andThen
       (case r of
          Inr pc \<Rightarrow> ret ()
        | Inl e \<Rightarrow>
            if e = NotFound then
              andThen (orPanic (KubeSafeLabel (ps_Name ps))) (\<lambda>l1.
              andThen (orPanic (KubeSafeLabel pcName)) (\<lambda>l2.
              andThen (orPanic (KubeSafeLabel (Branch environment))) (\<lambda>l3.
                check (client_Create_ProposedCommit w
                  \<lparr>pc_Name = pcName,
                   pc_Namespace = ps_Namespace ps,
                   pc_OwnerReferences = [(''PromotionStrategy'', ps_Name ps)],
                   pc_Labels = Some
                     [(''promoter.argoproj.io/promotion-strategy'', l1),
                      (''promoter.argoproj.io/proposed-commit'', l2),
                      (''promoter.argoproj.io/environment'', l3)],
                   pc_Spec =
                     \<lparr>pcs_RepositoryReference = RepositoryReference (ps_Spec ps),
                      ProposedBranch = Branch environment @ ''-'' @ ''next'',
                      ActiveBranch = Branch environment\<rparr>,
                   pc_Status = emptyProposedCommitStatus\<rparr>))))
            else throw e)
       (\<lambda>_. createOrGetProposedCommit_wait fuel w (ps_Namespace ps, pcName))))"

subsection \<open>\<open>calculateStatus\<close>\<close>

text \<open>
  Assignments through \<open>ps.Status.Environments[i]\<close>, with the bounds check of the index
  expression.
\<close>

definition setActiveCommitStatus ::
    "int \<Rightarrow> string \<Rightarrow> string \<Rightarrow> EnvironmentStatus list \<Rightarrow> panic + EnvironmentStatus list" where
  "setActiveCommitStatus i state sha envs =
     (case index envs i of
        Inl p \<Rightarrow> Inl p
      | Inr e \<Rightarrow> Inr (envs[nat i := e\<lparr>Active :=
          (Active e)\<lparr>CommitStatus := \<lparr>rollup_State = state, rollup_Sha = sha\<rparr>\<rparr>\<rparr>]))"

definition setActiveCommitStatusState ::
    "int \<Rightarrow> string \<Rightarrow> EnvironmentStatus list \<Rightarrow> panic + EnvironmentStatus list" where
  "setActiveCommitStatusState i state envs =
     (case index envs i of
        Inl p \<Rightarrow> Inl p
      | Inr e \<Rightarrow> Inr (envs[nat i := e\<lparr>Active :=
          (Active e)\<lparr>CommitStatus := (CommitStatus (Active e))\<lparr>rollup_State := state\<rparr>\<rparr>\<rparr>]))"

definition setProposedCommitStatus ::
    "int \<Rightarrow> string \<Rightarrow> string \<Rightarrow> EnvironmentStatus list \<Rightarrow> panic + EnvironmentStatus list" where
  "setProposedCommitStatus i state sha envs =
     (case index envs i of
        Inl p \<Rightarrow> Inl p
      | Inr e \<Rightarrow> Inr (envs[nat i := e\<lparr>Proposed :=
          (Proposed e)\<lparr>CommitStatus := \<lparr>rollup_State = state, rollup_Sha = sha\<rparr>\<rparr>\<rparr>]))"

definition setProposedCommitStatusState ::
    "int \<Rightarrow> string \<Rightarrow> EnvironmentStatus list \<Rightarrow> panic + EnvironmentStatus list" where
  "setProposedCommitStatusState i state envs =
     (case index envs i of
        Inl p \<Rightarrow> Inl p
      | Inr e \<Rightarrow> Inr (envs[nat i := e\<lparr>Proposed :=
          (Proposed e)\<lparr>CommitStatus := (CommitStatus (Proposed e))\<lparr>rollup_State := state\<rparr>\<rparr>\<rparr>]))"

text \<open>
  The loop over the status keys (lines 297-330 for the active keys, 351-384 for the proposed
  ones: the same text but for the hydrated SHA queried and the side of the status entry
  written, here \<open>sha\<close> and \<open>setCommitStatus\<close>).  It threads the list collected so far and
  the status entries.
\<close>

definition notCopies :: "CommitStatus list \<Rightarrow> CommitStatus list" where
  "notCopies items =
     filter (\<lambda>item. getLabel (cs_Labels item) ''promoter.argoproj.io/commit-status-copy'' \<noteq> ''true'')
       items"

fun calculateStatus_keys ::
    "world \<Rightarrow> string
       \<Rightarrow> (int \<Rightarrow> string \<Rightarrow> string \<Rightarrow> EnvironmentStatus list \<Rightarrow> panic + EnvironmentStatus list)
       \<Rightarrow> int \<Rightarrow> CommitStatusSelector list \<Rightarrow> CommitStatus list \<times> EnvironmentStatus list
       \<Rightarrow> (CommitStatus list \<times> EnvironmentStatus list) action" where
  "calculateStatus_keys w sha setCommitStatus i [] (allCSList, envs) = ret (allCSList, envs)"
| "calculateStatus_keys w sha setCommitStatus i (status # rest) (allCSList, envs) =
     andThen (orPanic (KubeSafeLabel (Key status))) (\<lambda>label.
     andThen (client_List_CommitStatus w label sha) (\<lambda>r.
       case r of
         Inl e \<Rightarrow> throw e
       | Inr items \<Rightarrow>
           (let csListSlice = notCopies items
            in if length csListSlice = 1 then
                 calculateStatus_keys w sha setCommitStatus i rest (allCSList @ [csListSlice ! 0], envs)
               else if length csListSlice > 1 then
                 andThen (orPanic (setCommitStatus i ''to-many-matching-sha'' ''to-many-matching-sha'' envs))
                   (\<lambda>envs. calculateStatus_keys w sha setCommitStatus i rest (allCSList, envs))
               else
                 andThen (orPanic (setCommitStatus i ''no-commit-status-found'' ''no-commit-status-found'' envs))
                   (\<lambda>envs. calculateStatus_keys w sha setCommitStatus i rest (allCSList, envs)))))"

text \<open>
  \<open>for _, cs := range list { if cs.Status.State != "success" { ...; break } }\<close>: the entry
  the override is taken from, if any.
\<close>

definition firstNotSuccess :: "CommitStatus list \<Rightarrow> CommitStatus option" where
  "firstNotSuccess list = find (\<lambda>cs. cs_Status_State cs \<noteq> ''success'') list"

definition initialEnvironmentStatus :: "Environment \<Rightarrow> ProposedCommit \<Rightarrow> EnvironmentStatus" where
  "initialEnvironmentStatus environment pc =
     \<lparr>es_Branch = Branch environment,
      Active =
        \<lparr>Dry = \<lparr>Sha = Sha (pcb_Dry (pc_Active (pc_Status pc))),
                 CommitTime = CommitTime (pcb_Dry (pc_Active (pc_Status pc)))\<rparr>,
         Hydrated = \<lparr>Sha = Sha (pcb_Hydrated (pc_Active (pc_Status pc))),
                      CommitTime = CommitTime (pcb_Hydrated (pc_Active (pc_Status pc)))\<rparr>,
         CommitStatus = \<lparr>rollup_State = ''unknown'', rollup_Sha = ''unknown''\<rparr>\<rparr>,
      Proposed =
        \<lparr>Dry = \<lparr>Sha = Sha (pcb_Dry (pc_Proposed (pc_Status pc))),
                 CommitTime = CommitTime (pcb_Dry (pc_Proposed (pc_Status pc)))\<rparr>,
         Hydrated = \<lparr>Sha = Sha (pcb_Hydrated (pc_Proposed (pc_Status pc))),
                      CommitTime = CommitTime (pcb_Hydrated (pc_Proposed (pc_Status pc)))\<rparr>,
         CommitStatus = \<lparr>rollup_State = ''unknown'', rollup_Sha = ''unknown''\<rparr>\<rparr>,
      LastHealthyDryShas = []\<rparr>"

text \<open>The body of the loop over \<open>ps.Spec.Environments\<close>, for one environment.\<close>

definition calculateStatus_environment ::
    "world \<Rightarrow> (string \<rightharpoonup> ProposedCommit) \<Rightarrow> PromotionStrategy \<Rightarrow> Environment
       \<Rightarrow> PromotionStrategy action" where
  "calculateStatus_environment w pcMap ps environment =
     (case pcMap (Branch environment) of
        None \<Rightarrow> throw (Errorf (''ProposedCommit not found for branch '' @ Branch environment))
      | Some pc \<Rightarrow>
         (let envs = UpsertEnvironmentStatus (ps_Status ps) (initialEnvironmentStatus environment pc);
              ps = ps\<lparr>ps_Status := envs\<rparr>;
              i = fst (GetEnvironmentStatusByBranch ps (Branch environment))
          in
          andThen (orPanic (if i \<ge> int (length envs) then Inl IndexOutOfRange else Inr ())) (\<lambda>_.
          andThen (calculateStatus_keys w (Sha (pcb_Hydrated (pc_Active (pc_Status pc))))
                     setActiveCommitStatus i
                     (env_ActiveCommitStatuses environment @ ActiveCommitStatuses (ps_Spec ps))
                     ([], envs)) (\<lambda>(allActiveCSList, envs).
          andThen
            (if length allActiveCSList = 0 \<and> i \<ge> 0 then
               orPanic (setProposedCommitStatus i ''success''
                          (Sha (pcb_Hydrated (pc_Active (pc_Status pc)))) envs)
             else
               andThen (orPanic (setActiveCommitStatusState i ''success'' envs)) (\<lambda>envs.
                 case firstNotSuccess allActiveCSList of
                   None \<Rightarrow> ret envs
                 | Some cs \<Rightarrow>
                     orPanic (setActiveCommitStatus i (css_State (cs_Spec cs)) (css_Sha (cs_Spec cs)) envs)))
            (\<lambda>envs.
          andThen (calculateStatus_keys w (Sha (pcb_Hydrated (pc_Proposed (pc_Status pc))))
                     setProposedCommitStatus i
                     (env_ProposedCommitStatuses environment @ ProposedCommitStatuses (ps_Spec ps))
                     ([], envs)) (\<lambda>(allProposdedCSList, envs).
          andThen
            (if length allProposdedCSList = 0 \<and> i \<ge> 0 then
               orPanic (setProposedCommitStatus i ''success''
                          (Sha (pcb_Hydrated (pc_Active (pc_Status pc)))) envs)
             else
               andThen (orPanic (setProposedCommitStatusState i ''success'' envs)) (\<lambda>envs.
                 case firstNotSuccess allActiveCSList of
                   None \<Rightarrow> ret envs
                 | Some cs \<Rightarrow>
                     orPanic (setProposedCommitStatus i (css_State (cs_Spec cs)) (css_Sha (cs_Spec cs)) envs)))
            (\<lambda>envs. ret (ps\<lparr>ps_Status := envs\<rparr>))))))))"

fun calculateStatus_loop ::
    "world \<Rightarrow> (string \<rightharpoonup> ProposedCommit) \<Rightarrow> Environment list \<Rightarrow> PromotionStrategy
       \<Rightarrow> PromotionStrategy action" where
  "calculateStatus_loop w pcMap [] ps = ret ps"
| "calculateStatus_loop w pcMap (environment # rest) ps =
     andThen (calculateStatus_environment w pcMap ps environment)
       (calculateStatus_loop w pcMap rest)"

definition calculateStatus ::
    "world \<Rightarrow> PromotionStrategy \<Rightarrow> (string \<rightharpoonup> ProposedCommit) \<Rightarrow> PromotionStrategy action" where
  "calculateStatus w ps pcMap = calculateStatus_loop w pcMap (Environments (ps_Spec ps)) ps"

subsection \<open>\<open>copyCommitStatuses\<close>\<close>

text \<open>Whether a loop body ran to its end or executed a \<open>return nil\<close> of the function.\<close>

datatype flow = Continue | Returned

definition setCopyLabels :: "labels \<Rightarrow> string \<Rightarrow> string \<Rightarrow> string \<Rightarrow> panic + labels" where
  "setCopyLabels m copyFrom copyFromSha copyFromBranch =
     (case setLabel m ''promoter.argoproj.io/commit-status-copy'' ''true'' of
        Inl p \<Rightarrow> Inl p
      | Inr m \<Rightarrow>
     (case setLabel m ''promoter.argoproj.io/commit-status-copy-from'' copyFrom of
        Inl p \<Rightarrow> Inl p
      | Inr m \<Rightarrow>
     (case setLabel m ''promoter.argoproj.io/commit-status-copy-from-sha'' copyFromSha of
        Inl p \<Rightarrow> Inl p
      | Inr m \<Rightarrow>
          setLabel m ''promoter.argoproj.io/commit-status-copy-from-branch'' copyFromBranch)))"

definition commitUrl :: "Repository \<Rightarrow> string \<Rightarrow> string" where
  "commitUrl repo sha =
     ''https://github.com/'' @ repo_Owner repo @ ''/'' @ repo_Name repo @ ''/commit/'' @ sha"

text \<open>The loop over \<open>commitStatuses.Items\<close>.\<close>

fun copyCommitStatuses_items ::
    "world \<Rightarrow> string \<Rightarrow> string \<Rightarrow> string \<Rightarrow> CommitStatus list \<Rightarrow> flow action" where
  "copyCommitStatuses_items w copyFromActiveHydratedSha copyToProposedHydratedSha branch [] =
     ret Continue"
| "copyCommitStatuses_items w copyFromActiveHydratedSha copyToProposedHydratedSha branch
       (commitStatus # rest) =
     (if getLabel (cs_Labels commitStatus) ''promoter.argoproj.io/commit-status-copy'' = ''true''
      then copyCommitStatuses_items w copyFromActiveHydratedSha copyToProposedHydratedSha branch rest
      else
        andThen (client_Get_CommitStatus w
                   (cs_Namespace commitStatus, ''proposed-'' @ cs_Name commitStatus)) (\<lambda>r.
        andThen (orPanic (KubeSafeLabel (css_Name (cs_Spec commitStatus)))) (\<lambda>copyFrom.
        andThen (orPanic (KubeSafeLabel copyFromActiveHydratedSha)) (\<lambda>copyFromSha.
        andThen (orPanic (KubeSafeLabel branch)) (\<lambda>copyFromBranch.
          case r of
            Inl errGet \<Rightarrow>
              if errGet = NotFound then
                andThen (orPanic (setCopyLabels
                           (case cs_Labels commitStatus of None \<Rightarrow> Some [] | Some m \<Rightarrow> Some m)
                           copyFrom copyFromSha copyFromBranch)) (\<lambda>statusLabels.
                andThen (check (client_Create_CommitStatus w
                  \<lparr>cs_Name = ''proposed-'' @ cs_Name commitStatus,
                   cs_Namespace = cs_Namespace commitStatus,
                   cs_Annotations = cs_Annotations commitStatus,
                   cs_Labels = statusLabels,
                   cs_Spec =
                     \<lparr>css_RepositoryReference = css_RepositoryReference (cs_Spec commitStatus),
                      css_Sha = copyToProposedHydratedSha,
                      css_Name = branch @ '' - '' @ css_Name (cs_Spec commitStatus),
                      css_Description = css_Description (cs_Spec commitStatus),
                      css_State = css_State (cs_Spec commitStatus),
                      css_Url = commitUrl (css_RepositoryReference (cs_Spec commitStatus))
                                  copyFromActiveHydratedSha\<rparr>,
                   cs_Status_State = []\<rparr>)) (\<lambda>_.
                ret Returned))
              else throw errGet
          | Inr cs \<Rightarrow>
              andThen (orPanic (setCopyLabels (cs_Labels cs) copyFrom copyFromSha copyFromBranch))
                (\<lambda>csLabels.
              andThen (check (client_Update_CommitStatus w
                (cs\<lparr>cs_Labels := csLabels,
                    cs_Spec := (cs_Spec commitStatus)
                      \<lparr>css_Sha := copyToProposedHydratedSha,
                       css_Name := branch @ '' - '' @ css_Name (cs_Spec commitStatus),
                       css_Url := commitUrl (css_RepositoryReference (cs_Spec commitStatus))
                                    copyFromActiveHydratedSha\<rparr>\<rparr>))) (\<lambda>_.
              copyCommitStatuses_items w copyFromActiveHydratedSha copyToProposedHydratedSha
                branch rest)))))))"

text \<open>The loop over \<open>csSelector\<close>.\<close>

fun copyCommitStatuses ::
    "world \<Rightarrow> CommitStatusSelector list \<Rightarrow> string \<Rightarrow> string \<Rightarrow> string \<Rightarrow> unit action" where
  "copyCommitStatuses w [] copyFromActiveHydratedSha copyToProposedHydratedSha branch = ret ()"
| "copyCommitStatuses w (val # rest) copyFromActiveHydratedSha copyToProposedHydratedSha branch =
     andThen (orPanic (KubeSafeLabel (Key val))) (\<lambda>label.
     andThen (client_List_CommitStatus w label copyFromActiveHydratedSha) (\<lambda>r.
       case r of
         Inl e \<Rightarrow> throw e
       | Inr items \<Rightarrow>
           andThen (copyCommitStatuses_items w copyFromActiveHydratedSha copyToProposedHydratedSha
                      branch items) (\<lambda>f.
             case f of
               Returned \<Rightarrow> ret ()
             | Continue \<Rightarrow>
                 copyCommitStatuses w rest copyFromActiveHydratedSha copyToProposedHydratedSha
                   branch)))"

subsection \<open>\<open>Reconcile\<close>\<close>

text \<open>
  \<open>proposedCommitMap[environment.Branch]\<close> is a \<open>*ProposedCommit\<close>: for a missing key it is
  nil, and reading a field through it panics.  The same holds for \<open>environmentStatus\<close>.
\<close>

definition deref :: "'a option \<Rightarrow> panic + 'a" where
  "deref p = (case p of None \<Rightarrow> Inl NilPointerDereference | Some x \<Rightarrow> Inr x)"

definition activeChecksPassed ::
    "EnvironmentStatus option \<Rightarrow> ProposedCommit option \<Rightarrow> EnvironmentStatus option \<Rightarrow> panic + bool" where
  "activeChecksPassed previousEnvironmentStatus pc environmentStatus =
     (case previousEnvironmentStatus of
        None \<Rightarrow> Inr False
      | Some previous \<Rightarrow>
          if rollup_State (CommitStatus (Active previous)) \<noteq> ''success'' then Inr False
          else (case deref pc of
                  Inl p \<Rightarrow> Inl p
                | Inr pc \<Rightarrow>
                    if Sha (Dry (Active previous)) \<noteq> Sha (pcb_Dry (pc_Proposed (pc_Status pc)))
                    then Inr False
                    else (case deref environmentStatus of
                            Inl p \<Rightarrow> Inl p
                          | Inr current \<Rightarrow>
                              Inr (CommitTime (Dry (Active previous))
                                     > CommitTime (Dry (Active current))))))"

definition proposedChecksPassed :: "EnvironmentStatus option \<Rightarrow> bool" where
  "proposedChecksPassed environmentStatus =
     (case environmentStatus of
        None \<Rightarrow> False
      | Some current \<Rightarrow> rollup_State (CommitStatus (Proposed current)) = ''success'')"

text \<open>The closure handed to \<open>retry.RetryOnConflict\<close>; its state is \<open>prl.Items[0]\<close>.\<close>

definition Reconcile_merge :: "world \<Rightarrow> PullRequest \<Rightarrow> (PullRequest \<times> err option) action" where
  "Reconcile_merge w item =
     andThen (client_Get_PullRequest w (pr_Namespace item, pr_Name item)) (\<lambda>r.
       case r of
         Inl e \<Rightarrow> ret (item, Some e)
       | Inr pr \<Rightarrow>
           (let item = pr\<lparr>pr_Spec := (pr_Spec pr)\<lparr>prs_State := PullRequestMerged\<rparr>\<rparr>
            in andThen (client_Update_PullRequest w item) (\<lambda>e. ret (item, e))))"

text \<open>The body of the second loop over \<open>ps.Spec.Environments\<close> (lines 94 to 162).\<close>

definition Reconcile_environment ::
    "world \<Rightarrow> PromotionStrategy \<Rightarrow> (string \<rightharpoonup> ProposedCommit) \<Rightarrow> Environment \<Rightarrow> unit action" where
  "Reconcile_environment w ps proposedCommitMap environment =
     (let previousEnvironmentStatus = snd (GetPreviousEnvironmentStatusByBranch ps (Branch environment));
          (environmentIndex, environmentStatus) = GetEnvironmentStatusByBranch ps (Branch environment)
      in
      andThen
        (case previousEnvironmentStatus of
           None \<Rightarrow> ret ()
         | Some previous \<Rightarrow>
             andThen (orPanic (deref (proposedCommitMap (Branch environment)))) (\<lambda>pc.
               if Sha (Dry (Active previous)) = Sha (pcb_Dry (pc_Proposed (pc_Status pc)))
               then copyCommitStatuses w
                      (env_ActiveCommitStatuses environment @ ActiveCommitStatuses (ps_Spec ps))
                      (Sha (Hydrated (Active previous)))
                      (Sha (pcb_Hydrated (pc_Proposed (pc_Status pc))))
                      (es_Branch previous)
               else ret ()))
        (\<lambda>_.
      andThen (orPanic (activeChecksPassed previousEnvironmentStatus
                 (proposedCommitMap (Branch environment)) environmentStatus)) (\<lambda>activeChecksPassed.
        if (environmentIndex = 0
              \<or> (activeChecksPassed \<and> proposedChecksPassed environmentStatus))
           \<and> GetAutoMerge environment
        then
          andThen (orPanic (KubeSafeLabel (ps_Name ps))) (\<lambda>l1.
          andThen (orPanic (deref (proposedCommitMap (Branch environment)))) (\<lambda>pc.
          andThen (orPanic (KubeSafeLabel (pc_Name pc))) (\<lambda>l2.
          andThen (orPanic (KubeSafeLabel (Branch environment))) (\<lambda>l3.
          andThen (client_List_PullRequest w
                     [(''promoter.argoproj.io/promotion-strategy'', l1),
                      (''promoter.argoproj.io/proposed-commit'', l2),
                      (''promoter.argoproj.io/environment'', l3)]) (\<lambda>r.
            case r of
              Inl e \<Rightarrow> throw e
            | Inr items \<Rightarrow>
                if length items > 0
                   \<and> prs_State (pr_Spec (items ! 0)) = PullRequestOpen
                   \<and> prst_State (pr_Status (items ! 0)) = PullRequestOpen
                then
                  andThen (RetryOnConflict DefaultRetry_Steps (Reconcile_merge w)
                             ((items ! 0)\<lparr>pr_Spec :=
                                (pr_Spec (items ! 0))\<lparr>prs_State := PullRequestMerged\<rparr>\<rparr>))
                    (\<lambda>(_, e). case e of Some x \<Rightarrow> throw x | None \<Rightarrow> ret ())
                else ret ())))))
        else ret ())))"

fun Reconcile_environments ::
    "world \<Rightarrow> PromotionStrategy \<Rightarrow> (string \<rightharpoonup> ProposedCommit) \<Rightarrow> Environment list \<Rightarrow> unit action" where
  "Reconcile_environments w ps proposedCommitMap [] = ret ()"
| "Reconcile_environments w ps proposedCommitMap (environment # rest) =
     andThen (Reconcile_environment w ps proposedCommitMap environment)
       (\<lambda>_. Reconcile_environments w ps proposedCommitMap rest)"

text \<open>The first loop: one ProposedCommit per environment, stored by branch.\<close>

fun Reconcile_proposedCommits ::
    "nat \<Rightarrow> world \<Rightarrow> PromotionStrategy \<Rightarrow> Environment list \<Rightarrow> (string \<rightharpoonup> ProposedCommit)
       \<Rightarrow> (string \<rightharpoonup> ProposedCommit) action" where
  "Reconcile_proposedCommits fuel w ps [] proposedCommitMap = ret proposedCommitMap"
| "Reconcile_proposedCommits fuel w ps (environment # rest) proposedCommitMap =
     andThen (createOrGetProposedCommit fuel w ps environment) (\<lambda>pc.
       Reconcile_proposedCommits fuel w ps rest (proposedCommitMap(Branch environment \<mapsto> pc)))"

definition Reconcile :: "nat \<Rightarrow> world \<Rightarrow> key \<Rightarrow> Result action" where
  "Reconcile fuel w req =
     andThen (client_Get_PromotionStrategy w req) (\<lambda>r.
       case r of
         Inl e \<Rightarrow> if e = NotFound then ret emptyResult else throw e
       | Inr ps \<Rightarrow>
           andThen (Reconcile_proposedCommits fuel w ps (Environments (ps_Spec ps)) Map.empty)
             (\<lambda>proposedCommitMap.
           andThen (calculateStatus w ps proposedCommitMap) (\<lambda>ps.
           andThen (Reconcile_environments w ps proposedCommitMap (Environments (ps_Spec ps))) (\<lambda>_.
           andThen (check (client_Update_PromotionStrategy_Status w ps)) (\<lambda>_.
             ret \<lparr>Requeue = True, RequeueAfter = 10 * Second\<rparr>)))))"

section \<open>internal/controller: the PullRequest reconciler\<close>

subsection \<open>\<open>utils.GetScmProviderAndSecretFromRepositoryReference\<close>\<close>

definition GetScmProviderFromRepositoryReference ::
    "world \<Rightarrow> Repository \<Rightarrow> string \<Rightarrow> ScmProvider action" where
  "GetScmProviderFromRepositoryReference w repositoryRef objNamespace =
     (let namespace = (if ref_Namespace (repo_ScmProviderRef repositoryRef) \<noteq> []
                       then ref_Namespace (repo_ScmProviderRef repositoryRef)
                       else objNamespace)
      in andThen (client_Get_ScmProvider w (namespace, ref_Name (repo_ScmProviderRef repositoryRef)))
           (\<lambda>r. case r of Inl e \<Rightarrow> throw e | Inr scmProvider \<Rightarrow> ret scmProvider))"

definition GetScmProviderAndSecretFromRepositoryReference ::
    "world \<Rightarrow> Repository \<Rightarrow> string \<Rightarrow> ScmProvider action" where
  "GetScmProviderAndSecretFromRepositoryReference w repositoryRef objNamespace =
     andThen (GetScmProviderFromRepositoryReference w repositoryRef objNamespace) (\<lambda>scmProvider.
     andThen (check (client_Get_Secret w (scm_Namespace scmProvider, scm_SecretRef_Name scmProvider)))
       (\<lambda>_. ret scmProvider))"

subsection \<open>The provider and the finalizer\<close>

text \<open>A nil \<open>scms.PullRequestProvider\<close> is \<open>None\<close>.\<close>

definition getPullRequestProvider :: "world \<Rightarrow> PullRequest \<Rightarrow> PullRequestProvider option action" where
  "getPullRequestProvider w pr =
     andThen (GetScmProviderAndSecretFromRepositoryReference w
                (prs_RepositoryReference (pr_Spec pr)) (pr_Namespace pr)) (\<lambda>scmProvider.
       case scm_GitHub scmProvider of
         Some domain \<Rightarrow>
           andThen (check (perform (New_GithubPullRequestProvider domain)
                             (\<lambda>log. on_New_GithubPullRequestProvider w log domain)))
             (\<lambda>_. ret (Some (GithubPullRequestProvider domain)))
       | None \<Rightarrow>
           if scm_Fake scmProvider then ret (Some FakePullRequestProvider) else ret None)"

definition finalizerName :: string where
  "finalizerName = ''pullrequest.promoter.argoporoj.io/finalizer''"

definition closePullRequest ::
    "world \<Rightarrow> PullRequest \<Rightarrow> PullRequestProvider option \<Rightarrow> PullRequest action" where
  "closePullRequest w pr pullRequestProvider =
     (case pullRequestProvider of
        None \<Rightarrow> throw (Errorf
          ''failed to get pull request provider, pullRequestProvider is nil in closePullRequest'')
      | Some provider \<Rightarrow>
          if prst_State (pr_Status pr) = PullRequestMerged then ret pr
          else andThen (check (perform (Provider_Close provider pr)
                                 (\<lambda>log. on_Provider_Close w log provider pr)))
                 (\<lambda>_. ret (pr\<lparr>pr_Status := (pr_Status pr)\<lparr>prst_State := PullRequestClosed\<rparr>\<rparr>)))"

text \<open>The closure of \<open>handleFinalizer\<close> handed to \<open>retry.RetryOnConflict\<close>; its state is \<open>pr\<close>.\<close>

definition handleFinalizer_add :: "world \<Rightarrow> PullRequest \<Rightarrow> (PullRequest \<times> err option) action" where
  "handleFinalizer_add w pr =
     andThen (client_Get_PullRequest w (pr_Namespace pr, pr_Name pr)) (\<lambda>r.
       case r of
         Inl e \<Rightarrow> ret (pr, Some e)
       | Inr pr \<Rightarrow>
           (let pr = (if finalizerName \<in> set (Finalizers pr) then pr
                      else pr\<lparr>Finalizers := Finalizers pr @ [finalizerName]\<rparr>)
            in andThen (client_Update_PullRequest w pr) (\<lambda>e. ret (pr, e))))"

text \<open>
  \<open>handleFinalizer\<close> works on \<open>pr\<close> through a pointer: the model returns the pull request
  as the caller sees it afterwards, with the \<open>deleted\<close> flag.
\<close>

definition handleFinalizer ::
    "world \<Rightarrow> PullRequest \<Rightarrow> PullRequestProvider option \<Rightarrow> (PullRequest \<times> bool) action" where
  "handleFinalizer w pr pullRequestProvider =
     (if DeletionTimestamp pr = None then
        (if finalizerName \<notin> set (Finalizers pr) then
           andThen (RetryOnConflict DefaultRetry_Steps (handleFinalizer_add w) pr) (\<lambda>(pr, e).
             case e of Some x \<Rightarrow> throw x | None \<Rightarrow> ret (pr, False))
         else ret (pr, False))
      else
        (if finalizerName \<in> set (Finalizers pr) then
           andThen (closePullRequest w pr pullRequestProvider) (\<lambda>pr.
             (let pr = pr\<lparr>Finalizers := filter (\<lambda>f. f \<noteq> finalizerName) (Finalizers pr)\<rparr>
              in andThen (check (client_Update_PullRequest w pr)) (\<lambda>_. ret (pr, True))))
         else ret (pr, False)))"

subsection \<open>\<open>createPullRequest\<close>, \<open>updatePullRequest\<close>, \<open>mergePullRequest\<close>\<close>

definition createPullRequest ::
    "world \<Rightarrow> PullRequest \<Rightarrow> PullRequestProvider \<Rightarrow> PullRequest action" where
  "createPullRequest w pr provider =
     andThen (perform (Provider_Create provider pr) (\<lambda>log. on_Provider_Create w log provider pr))
       (\<lambda>r. case r of
          Inl e \<Rightarrow> throw e
        | Inr prId \<Rightarrow>
            andThen (perform Now (on_Now w)) (\<lambda>now.
              ret (pr\<lparr>pr_Status := (pr_Status pr)
                     \<lparr>prst_State := PullRequestOpen, PRCreationTime := now, ID := prId\<rparr>\<rparr>)))"

definition updatePullRequest ::
    "world \<Rightarrow> PullRequest \<Rightarrow> PullRequestProvider option \<Rightarrow> unit action" where
  "updatePullRequest w pr pullRequestProvider =
     (case pullRequestProvider of
        None \<Rightarrow> throw (Errorf
          ''failed to get pull request provider, pullRequestProvider is nil in updatePullRequest'')
      | Some provider \<Rightarrow>
          andThen (perform (Provider_Update provider pr) (\<lambda>log. on_Provider_Update w log provider pr))
            (\<lambda>e.
          andThen (perform (Recorder_Event (''Pull Request '' @ pr_Name pr @ '' updated'')) (\<lambda>_. ()))
            (\<lambda>_. case e of Some x \<Rightarrow> throw x | None \<Rightarrow> ret ())))"

definition mergePullRequest ::
    "world \<Rightarrow> PullRequest \<Rightarrow> PullRequestProvider option \<Rightarrow> PullRequest action" where
  "mergePullRequest w pr pullRequestProvider =
     (case pullRequestProvider of
        None \<Rightarrow> throw (Errorf
          ''failed to get pull request provider, pullRequestProvider is nil in mergePullRequest'')
      | Some provider \<Rightarrow>
          andThen (check (perform (Provider_Merge provider pr)
                            (\<lambda>log. on_Provider_Merge w log provider pr)))
            (\<lambda>_. ret (pr\<lparr>pr_Status := (pr_Status pr)\<lparr>prst_State := PullRequestMerged\<rparr>\<rparr>)))"

subsection \<open>\<open>Reconcile\<close> of the pull request\<close>

text \<open>The part of \<open>Reconcile\<close> after the \<open>FindOpen\<close> call has returned without error.\<close>

definition PullRequest_Reconcile_found ::
    "world \<Rightarrow> PullRequest \<Rightarrow> PullRequestProvider \<Rightarrow> bool \<Rightarrow> Result action" where
  "PullRequest_Reconcile_found w pr provider found =
     (if \<not> found \<and> prst_State (pr_Status pr) \<noteq> [] then
        andThen (client_Delete_PullRequest w pr) (\<lambda>e.
          case e of
            Some x \<Rightarrow> if x = NotFound then ret emptyResult else throw x
          | None \<Rightarrow> ret emptyResult)
      else if prst_State (pr_Status pr) \<noteq> []
              \<and> prs_State (pr_Spec pr) = prst_State (pr_Status pr)
              \<and> ObservedGeneration (pr_Status pr) = Generation pr
      then ret emptyResult
      else
        andThen
          (if prs_State (pr_Spec pr) = PullRequestOpen
              \<and> prst_State (pr_Status pr) \<noteq> PullRequestOpen
           then createPullRequest w pr provider else ret pr) (\<lambda>pr.
        if prs_State (pr_Spec pr) = PullRequestMerged
           \<and> prst_State (pr_Status pr) \<noteq> PullRequestMerged
        then
          andThen (mergePullRequest w pr (Some provider)) (\<lambda>pr.
          andThen (check (client_Update_PullRequest_Status w pr)) (\<lambda>_.
            ret \<lparr>Requeue = True, RequeueAfter = 0\<rparr>))
        else if prs_State (pr_Spec pr) = PullRequestClosed
                \<and> prst_State (pr_Status pr) \<noteq> PullRequestClosed
        then
          andThen (closePullRequest w pr (Some provider)) (\<lambda>pr.
          andThen (check (client_Update_PullRequest_Status w pr)) (\<lambda>_.
            ret \<lparr>Requeue = True, RequeueAfter = 0\<rparr>))
        else
          andThen
            (if ObservedGeneration (pr_Status pr) \<noteq> Generation pr
             then updatePullRequest w pr (Some provider) else ret ()) (\<lambda>_.
          (let pr = pr\<lparr>pr_Status := (pr_Status pr)\<lparr>ObservedGeneration := Generation pr\<rparr>\<rparr>
           in andThen (check (client_Update_PullRequest_Status w pr)) (\<lambda>_. ret emptyResult)))))"

definition PullRequest_Reconcile :: "world \<Rightarrow> key \<Rightarrow> Result action" where
  "PullRequest_Reconcile w req =
     andThen (client_Get_PullRequest w req) (\<lambda>r.
       case r of
         Inl e \<Rightarrow> if e = NotFound then ret emptyResult else throw e
       | Inr pr \<Rightarrow>
           andThen (getPullRequestProvider w pr) (\<lambda>pullRequestProvider.
             case pullRequestProvider of
               None \<Rightarrow> throw (Errorf
                 ''failed to get pull request provider, pullRequestProvider is nil'')
             | Some provider \<Rightarrow>
                 andThen (handleFinalizer w pr pullRequestProvider) (\<lambda>(pr, deleted).
                   if deleted then ret emptyResult
                   else
                     andThen (perform (Provider_FindOpen provider pr)
                                (\<lambda>log. on_Provider_FindOpen w log provider pr)) (\<lambda>r.
                       case r of
                         Inl e \<Rightarrow> throw e
                       | Inr found \<Rightarrow> PullRequest_Reconcile_found w pr provider found))))"


section \<open>The name derivation as the specification words it\<close>

text \<open>
  The steps of \<open>kubeSafeUniqueName\<close> written from the specification's sentence, to be compared
  with \<open>KubeSafeUniqueName\<close> above: runs of non-alphanumeric characters become one \<open>-\<close>
  (\<open>inRun\<close> says whether the previous character belonged to such a run); letters are
  lower-cased; the hash is FNV-1a on 32 bits (offset basis 2166136261, prime 16777619,
  arithmetic modulo \<open>2^32\<close>), written as eight hexadecimal digits without the leading
  zeros.
\<close>

fun spec_replaceRuns :: "bool \<Rightarrow> string \<Rightarrow> string" where
  "spec_replaceRuns inRun [] = []"
| "spec_replaceRuns inRun (c # cs) =
     (if isAlnum c then c # spec_replaceRuns False cs
      else if inRun then spec_replaceRuns True cs
      else CHR ''-'' # spec_replaceRuns True cs)"

definition spec_fnv1a32 :: "string \<Rightarrow> nat" where
  "spec_fnv1a32 s = foldl (\<lambda>h c. ((h XOR of_char c) * 16777619) mod 2 ^ 32) 2166136261 s"

fun fixedHex :: "nat \<Rightarrow> nat \<Rightarrow> string" where
  "fixedHex 0 n = []"
| "fixedHex (Suc k) n = fixedHex k (n div 16) @ [hexDigit (n mod 16)]"

definition stripZeros :: "string \<Rightarrow> string" where
  "stripZeros ds = (let r = dropWhile (\<lambda>c. c = CHR ''0'') ds in if r = [] then ''0'' else r)"

definition spec_hex :: "nat \<Rightarrow> string" where
  "spec_hex n = stripZeros (fixedHex 8 n)"

definition spec_lowercase :: "string \<Rightarrow> string" where
  "spec_lowercase s =
     map (\<lambda>c. case map_of (zip ''ABCDEFGHIJKLMNOPQRSTUVWXYZ'' ''abcdefghijklmnopqrstuvwxyz'') c of
                 Some l \<Rightarrow> l | None \<Rightarrow> c) s"

definition spec_stripTrailingDash :: "string \<Rightarrow> string" where
  "spec_stripTrailingDash s = (if s \<noteq> [] \<and> last s = CHR ''-'' then butlast s else s)"

definition spec_KubeSafeUniqueName :: "string \<Rightarrow> string" where
  "spec_KubeSafeUniqueName s =
     (let sanitized = spec_lowercase (spec_replaceRuns False s);
          hash = spec_hex (spec_fnv1a32 sanitized)
      in take (255 - length hash - 1) (spec_stripTrailingDash sanitized @ ''-'' @ hash))"

text \<open>The character class \<open>[A-Za-z0-9._-]\<close>, and strings without two adjacent hyphens.\<close>

definition isLabelChar :: "char \<Rightarrow> bool" where
  "isLabelChar c = (isAlnum c \<or> c = CHR ''.'' \<or> c = CHR ''_'' \<or> c = CHR ''-'')"

fun noDoubleDash :: "string \<Rightarrow> bool" where
  "noDoubleDash (c # d # r) = (\<not> (c = CHR ''-'' \<and> d = CHR ''-'') \<and> noDoubleDash (d # r))"
| "noDoubleDash _ = True"

section \<open>Observing a run\<close>

text \<open>
  \<open>emits Q m\<close>: whatever the log before, the action \<open>m\<close> only appends calls, and every call
  it appends satisfies \<open>Q\<close>.
\<close>

definition emits :: "(call \<Rightarrow> bool) \<Rightarrow> 'a action \<Rightarrow> bool" where
  "emits Q m = (\<forall>log. \<exists>new. snd (m log) = log @ new \<and> list_all Q new)"

fun isUpdatePullRequest :: "call \<Rightarrow> bool" where
  "isUpdatePullRequest (Update_PullRequest pr) = True"
| "isUpdatePullRequest _ = False"

text \<open>
  \<open>issuedInPass fuel w ps c\<close>: if the call \<open>c\<close> is the update of a pull request, then it is
  one of the calls appended by the pass of the second loop of \<open>Reconcile\<close> for an environment
  of the spec of \<open>ps\<close>, run on a status that \<open>calculateStatus\<close> has returned for \<open>ps\<close> and
  with a map of ProposedCommits that the first loop has returned for \<open>ps\<close>.
\<close>

definition issuedInPass :: "nat \<Rightarrow> world \<Rightarrow> PromotionStrategy \<Rightarrow> call \<Rightarrow> bool" where
  "issuedInPass fuel w ps c =
     (\<forall>pr. c = Update_PullRequest pr \<longrightarrow>
        (\<exists>proposedCommitMap ps' k.
           (\<exists>log log'. Reconcile_proposedCommits fuel w ps (Environments (ps_Spec ps)) Map.empty log
                          = (Return proposedCommitMap, log'))
         \<and> (\<exists>log log'. calculateStatus w ps proposedCommitMap log = (Return ps', log'))
         \<and> k < length (Environments (ps_Spec ps))
         \<and> (\<exists>log. Update_PullRequest pr
               \<in> set (drop (length log)
                   (snd (Reconcile_environment w ps' proposedCommitMap
                           (Environments (ps_Spec ps) ! k) log))))))"

section \<open>Example clusters\<close>

text \<open>
  A world for concrete runs: the client reads a fixed snapshot of the cluster for the whole
  run (the informer cache has not yet seen what the run writes), every write is accepted, the
  SCM provider reports no open pull request, and no ScmProvider object exists.
\<close>

definition matchLabels :: "(string \<times> string) list \<Rightarrow> labels \<Rightarrow> bool" where
  "matchLabels sel m = list_all (\<lambda>(k, v). getLabel m k = v) sel"

definition snapshotWorld ::
    "PromotionStrategy list \<Rightarrow> ProposedCommit list \<Rightarrow> CommitStatus list \<Rightarrow> PullRequest list
       \<Rightarrow> world" where
  "snapshotWorld pss pcs css prs =
     \<lparr>on_Get_PromotionStrategy = (\<lambda>log k.
        case find (\<lambda>ps. (ps_Namespace ps, ps_Name ps) = k) pss of
          None \<Rightarrow> Inl NotFound | Some ps \<Rightarrow> Inr ps),
      on_Get_ProposedCommit = (\<lambda>log k.
        case find (\<lambda>pc. (pc_Namespace pc, pc_Name pc) = k) pcs of
          None \<Rightarrow> Inl NotFound | Some pc \<Rightarrow> Inr pc),
      on_Create_ProposedCommit = (\<lambda>log pc. None),
      on_rand_Intn = (\<lambda>log n. 0),
      on_List_CommitStatus = (\<lambda>log label sha.
        Inr (filter (\<lambda>cs. getLabel (cs_Labels cs) ''promoter.argoproj.io/commit-status'' = label
                          \<and> css_Sha (cs_Spec cs) = sha) css)),
      on_Get_CommitStatus = (\<lambda>log k.
        case find (\<lambda>cs. (cs_Namespace cs, cs_Name cs) = k) css of
          None \<Rightarrow> Inl NotFound | Some cs \<Rightarrow> Inr cs),
      on_Create_CommitStatus = (\<lambda>log cs. None),
      on_Update_CommitStatus = (\<lambda>log cs. None),
      on_List_PullRequest = (\<lambda>log sel. Inr (filter (\<lambda>pr. matchLabels sel (pr_Labels pr)) prs)),
      on_Get_PullRequest = (\<lambda>log k.
        case find (\<lambda>pr. (pr_Namespace pr, pr_Name pr) = k) prs of
          None \<Rightarrow> Inl NotFound | Some pr \<Rightarrow> Inr pr),
      on_Update_PullRequest = (\<lambda>log pr. None),
      on_Update_PromotionStrategy_Status = (\<lambda>log ps. None),
      on_Delete_PullRequest = (\<lambda>log pr. None),
      on_Update_PullRequest_Status = (\<lambda>log pr. None),
      on_Get_ScmProvider = (\<lambda>log k. Inl NotFound),
      on_Get_Secret = (\<lambda>log k. Some NotFound),
      on_New_GithubPullRequestProvider = (\<lambda>log domain. None),
      on_Provider_FindOpen = (\<lambda>log provider pr. Inr False),
      on_Provider_Create = (\<lambda>log provider pr. Inr ''1''),
      on_Provider_Update = (\<lambda>log provider pr. None),
      on_Provider_Merge = (\<lambda>log provider pr. None),
      on_Provider_Close = (\<lambda>log provider pr. None),
      on_Now = (\<lambda>log. 0)\<rparr>"

text \<open>
  The strategy \<open>demo\<close>: environments \<open>env/dev\<close> and \<open>env/test\<close>, one strategy-wide active
  check \<open>health\<close>.  The dry commit \<open>d2\<close> is live in \<open>env/dev\<close> and proposed for \<open>env/test\<close>,
  where \<open>d1\<close> is still live.  The check \<open>health\<close> has succeeded on the hydrated commit of
  \<open>env/dev\<close> and has not been reported on that of \<open>env/test\<close>.  Both pull requests are open.
\<close>

definition demoRepo :: Repository where
  "demoRepo = \<lparr>repo_Owner = ''acme'', repo_Name = ''app'',
               repo_ScmProviderRef = \<lparr>ref_Name = ''scm'', ref_Namespace = []\<rparr>\<rparr>"

definition demoEnvironment :: "string \<Rightarrow> Environment" where
  "demoEnvironment branch =
     \<lparr>Branch = branch, AutoMerge = None,
      env_ActiveCommitStatuses = [], env_ProposedCommitStatuses = []\<rparr>"

definition demoStrategy :: PromotionStrategy where
  "demoStrategy =
     \<lparr>ps_Name = ''demo'', ps_Namespace = ''default'',
      ps_Spec = \<lparr>RepositoryReference = demoRepo,
                 Environments = [demoEnvironment ''env/dev'', demoEnvironment ''env/test''],
                 ActiveCommitStatuses = [\<lparr>Key = ''health''\<rparr>],
                 ProposedCommitStatuses = []\<rparr>,
      ps_Status = []\<rparr>"

definition demoProposedCommit ::
    "string \<Rightarrow> string \<Rightarrow> string \<times> time \<Rightarrow> string \<Rightarrow> string \<times> time \<Rightarrow> string \<Rightarrow> ProposedCommit" where
  "demoProposedCommit name branch activeDry activeHydrated proposedDry proposedHydrated =
     \<lparr>pc_Name = name, pc_Namespace = ''default'',
      pc_OwnerReferences = [(''PromotionStrategy'', ''demo'')],
      pc_Labels = Some [],
      pc_Spec = \<lparr>pcs_RepositoryReference = demoRepo,
                 ProposedBranch = branch @ ''-next'', ActiveBranch = branch\<rparr>,
      pc_Status =
        \<lparr>pc_Active = \<lparr>pcb_Dry = \<lparr>Sha = fst activeDry, CommitTime = snd activeDry\<rparr>,
                       pcb_Hydrated = \<lparr>Sha = activeHydrated, CommitTime = snd activeDry\<rparr>\<rparr>,
         pc_Proposed = \<lparr>pcb_Dry = \<lparr>Sha = fst proposedDry, CommitTime = snd proposedDry\<rparr>,
                         pcb_Hydrated = \<lparr>Sha = proposedHydrated, CommitTime = snd proposedDry\<rparr>\<rparr>\<rparr>\<rparr>"

definition demoDevPC :: ProposedCommit where
  "demoDevPC = demoProposedCommit ''demo-env-dev-475fa186'' ''env/dev''
                 (''d2'', 200) ''h-dev'' (''d2'', 200) ''p-dev''"

definition demoTestPC :: ProposedCommit where
  "demoTestPC = demoProposedCommit ''demo-env-test-7ab2bb53'' ''env/test''
                  (''d1'', 100) ''h-test'' (''d2'', 200) ''p-test''"

definition demoCommitStatus :: "string \<Rightarrow> string \<Rightarrow> string \<Rightarrow> string \<Rightarrow> CommitStatus" where
  "demoCommitStatus name checkKey sha state =
     \<lparr>cs_Name = name, cs_Namespace = ''default'', cs_Annotations = None,
      cs_Labels = Some [(''promoter.argoproj.io/commit-status'', checkKey)],
      cs_Spec = \<lparr>css_RepositoryReference = demoRepo, css_Sha = sha, css_Name = checkKey,
                 css_Description = [], css_State = state, css_Url = []\<rparr>,
      cs_Status_State = state\<rparr>"

definition healthDev :: CommitStatus where
  "healthDev = demoCommitStatus ''health-dev'' ''health'' ''h-dev'' ''success''"

definition demoPullRequest :: "string \<Rightarrow> string \<Rightarrow> string \<Rightarrow> string \<Rightarrow> string \<Rightarrow> PullRequest" where
  "demoPullRequest name pcLabel envLabel specState statusState =
     \<lparr>pr_Name = name, pr_Namespace = ''default'',
      pr_Labels = Some [(''promoter.argoproj.io/promotion-strategy'', ''demo''),
                        (''promoter.argoproj.io/proposed-commit'', pcLabel),
                        (''promoter.argoproj.io/environment'', envLabel)],
      Generation = 1, DeletionTimestamp = None, Finalizers = [finalizerName],
      pr_Spec = \<lparr>prs_RepositoryReference = demoRepo, Title = ''Promote'',
                 TargetBranch = [], SourceBranch = [], Description = [], prs_State = specState\<rparr>,
      pr_Status = \<lparr>ID = ''1'', prst_State = statusState, PRCreationTime = 0,
                   ObservedGeneration = 1\<rparr>\<rparr>"

definition demoDevPR :: PullRequest where
  "demoDevPR = demoPullRequest ''pr-dev'' ''demo-env-dev-475fa186'' ''env-dev'' ''open'' ''open''"

definition demoTestPR :: PullRequest where
  "demoTestPR = demoPullRequest ''pr-test'' ''demo-env-test-7ab2bb53'' ''env-test'' ''open'' ''open''"

definition demoCluster :: world where
  "demoCluster = snapshotWorld [demoStrategy] [demoDevPC, demoTestPC] [healthDev]
                   [demoDevPR, demoTestPR]"

definition demoPCMap :: "string \<rightharpoonup> ProposedCommit" where
  "demoPCMap = [''env/dev'' \<mapsto> demoDevPC, ''env/test'' \<mapsto> demoTestPC]"

text \<open>A strategy with one environment and no status checks at all.\<close>

definition soloStrategy :: PromotionStrategy where
  "soloStrategy =
     \<lparr>ps_Name = ''demo'', ps_Namespace = ''default'',
      ps_Spec = \<lparr>RepositoryReference = demoRepo,
                 Environments = [demoEnvironment ''env/dev''],
                 ActiveCommitStatuses = [],
                 ProposedCommitStatuses = []\<rparr>,
      ps_Status = []\<rparr>"

text \<open>
  A strategy with one environment, the active check \<open>health\<close> and the proposed check \<open>scan\<close>;
  \<open>scan\<close> is still pending on the proposed hydrated commit.  And a second active check,
  \<open>perf\<close>, that has succeeded on the hydrated commit of \<open>env/dev\<close>.
\<close>

definition gatedStrategy :: PromotionStrategy where
  "gatedStrategy =
     \<lparr>ps_Name = ''demo'', ps_Namespace = ''default'',
      ps_Spec = \<lparr>RepositoryReference = demoRepo,
                 Environments = [demoEnvironment ''env/dev''],
                 ActiveCommitStatuses = [\<lparr>Key = ''health''\<rparr>],
                 ProposedCommitStatuses = [\<lparr>Key = ''scan''\<rparr>]\<rparr>,
      ps_Status = []\<rparr>"

definition scanDev :: CommitStatus where
  "scanDev = demoCommitStatus ''scan-dev'' ''scan'' ''p-dev'' ''pending''"

definition perfDev :: CommitStatus where
  "perfDev = demoCommitStatus ''perf-dev'' ''perf'' ''h-dev'' ''success''"

text \<open>
  A cluster for the pull-request reconciler: the pull request of \<open>env/test\<close>, observed open,
  with its finalizer; the repository's ScmProvider is the fake one and its secret exists; the
  provider finds no open pull request.
\<close>

definition fakeScmCluster :: world where
  "fakeScmCluster = (snapshotWorld [] [] [] [demoTestPR])
     \<lparr>on_Get_ScmProvider := (\<lambda>log k. Inr \<lparr>scm_Namespace = ''default'',
          scm_SecretRef_Name = ''scm-secret'', scm_GitHub = None, scm_Fake = True\<rparr>),
      on_Get_Secret := (\<lambda>log k. None)\<rparr>"

text \<open>The values that the runs on these clusters produce, named for the statements below.\<close>

definition demoEnvironmentStatus ::
    "string \<Rightarrow> string \<times> time \<Rightarrow> string \<Rightarrow> string \<times> string
       \<Rightarrow> string \<times> time \<Rightarrow> string \<Rightarrow> string \<times> string \<Rightarrow> EnvironmentStatus" where
  "demoEnvironmentStatus branch activeDry activeHydrated activeRollup
       proposedDry proposedHydrated proposedRollup =
     \<lparr>es_Branch = branch,
      Active = \<lparr>Dry = \<lparr>Sha = fst activeDry, CommitTime = snd activeDry\<rparr>,
                 Hydrated = \<lparr>Sha = activeHydrated, CommitTime = snd activeDry\<rparr>,
                 CommitStatus = \<lparr>rollup_State = fst activeRollup, rollup_Sha = snd activeRollup\<rparr>\<rparr>,
      Proposed = \<lparr>Dry = \<lparr>Sha = fst proposedDry, CommitTime = snd proposedDry\<rparr>,
                   Hydrated = \<lparr>Sha = proposedHydrated, CommitTime = snd proposedDry\<rparr>,
                   CommitStatus = \<lparr>rollup_State = fst proposedRollup,
                                   rollup_Sha = snd proposedRollup\<rparr>\<rparr>,
      LastHealthyDryShas = []\<rparr>"

definition demoTestStatus :: EnvironmentStatus where
  "demoTestStatus = demoEnvironmentStatus ''env/test''
       (''d1'', 100) ''h-test'' (''no-commit-status-found'', ''no-commit-status-found'')
       (''d2'', 200) ''p-test'' (''success'', ''h-test'')"

definition demoReconciled :: PromotionStrategy where
  "demoReconciled = demoStrategy\<lparr>ps_Status :=
     [demoEnvironmentStatus ''env/dev''
        (''d2'', 200) ''h-dev'' (''success'', ''unknown'')
        (''d2'', 200) ''p-dev'' (''success'', ''h-dev''),
      demoTestStatus]\<rparr>"

definition demoPending :: PromotionStrategy where
  "demoPending = demoStrategy\<lparr>ps_Status :=
     [demoEnvironmentStatus ''env/dev''
        (''d2'', 200) ''h-dev'' (''pending'', ''h-dev'')
        (''d2'', 200) ''p-dev'' (''success'', ''h-dev''),
      demoTestStatus]\<rparr>"

definition proposedHealthDev :: CommitStatus where
  "proposedHealthDev =
     \<lparr>cs_Name = ''proposed-health-dev'', cs_Namespace = ''default'', cs_Annotations = None,
      cs_Labels = Some
        [(''promoter.argoproj.io/commit-status'', ''health''),
         (''promoter.argoproj.io/commit-status-copy'', ''true''),
         (''promoter.argoproj.io/commit-status-copy-from'', ''health''),
         (''promoter.argoproj.io/commit-status-copy-from-sha'', ''h-dev''),
         (''promoter.argoproj.io/commit-status-copy-from-branch'', ''env-dev'')],
      cs_Spec = \<lparr>css_RepositoryReference = demoRepo, css_Sha = ''p-test'',
                 css_Name = ''env/dev - health'', css_Description = [], css_State = ''success'',
                 css_Url = ''https://github.com/acme/app/commit/h-dev''\<rparr>,
      cs_Status_State = []\<rparr>"

definition demoTestSelector :: "(string \<times> string) list" where
  "demoTestSelector =
     [(''promoter.argoproj.io/promotion-strategy'', ''demo''),
      (''promoter.argoproj.io/proposed-commit'', ''demo-env-test-7ab2bb53''),
      (''promoter.argoproj.io/environment'', ''env-test'')]"

definition demoDevSelector :: "(string \<times> string) list" where
  "demoDevSelector =
     [(''promoter.argoproj.io/promotion-strategy'', ''demo''),
      (''promoter.argoproj.io/proposed-commit'', ''demo-env-dev-475fa186''),
      (''promoter.argoproj.io/environment'', ''env-dev'')]"

definition merged :: "PullRequest \<Rightarrow> PullRequest" where
  "merged pr = pr\<lparr>pr_Spec := (pr_Spec pr)\<lparr>prs_State := ''merged''\<rparr>\<rparr>"

text \<open>
  The strategy \<open>demo\<close> with the branch \<open>env/dev\<close> listed twice: first with \<open>autoMerge\<close>
  switched off, then \<open>env/test\<close>, then \<open>env/dev\<close> again.  The cluster is the demo cluster
  otherwise, and \<open>calculateStatus\<close> produces the same status entries on it.
\<close>

definition repeatedStrategy :: PromotionStrategy where
  "repeatedStrategy =
     \<lparr>ps_Name = ''demo'', ps_Namespace = ''default'',
      ps_Spec = \<lparr>RepositoryReference = demoRepo,
                 Environments = [(demoEnvironment ''env/dev'')\<lparr>AutoMerge := Some False\<rparr>,
                                 demoEnvironment ''env/test'',
                                 demoEnvironment ''env/dev''],
                 ActiveCommitStatuses = [\<lparr>Key = ''health''\<rparr>],
                 ProposedCommitStatuses = []\<rparr>,
      ps_Status = []\<rparr>"

definition repeatedCluster :: world where
  "repeatedCluster = snapshotWorld [repeatedStrategy] [demoDevPC, demoTestPC] [healthDev]
                       [demoDevPR, demoTestPR]"

definition repeatedReconciled :: PromotionStrategy where
  "repeatedReconciled = repeatedStrategy\<lparr>ps_Status := ps_Status demoReconciled\<rparr>"

text \<open>
  The demo cluster with the check \<open>health\<close> still pending on the hydrated commit of
  \<open>env/dev\<close>; \<open>calculateStatus\<close> produces \<open>demoPending\<close> on it.
\<close>

definition pendingHealthDev :: CommitStatus where
  "pendingHealthDev = demoCommitStatus ''health-dev'' ''health'' ''h-dev'' ''pending''"

definition pendingCluster :: world where
  "pendingCluster = snapshotWorld [demoStrategy] [demoDevPC, demoTestPC] [pendingHealthDev]
                      [demoDevPR, demoTestPR]"

definition proposedPendingHealthDev :: CommitStatus where
  "proposedPendingHealthDev =
     proposedHealthDev\<lparr>cs_Spec := (cs_Spec proposedHealthDev)\<lparr>css_State := ''pending''\<rparr>\<rparr>"

section \<open>Properties of the name and label derivation\<close>

lemma spec_replaceRuns_True:
  "spec_replaceRuns True s = spec_replaceRuns False (dropWhile (\<lambda>d. \<not> isAlnum d) s)"
  by (induction s) auto

lemma m1_is_spec_replaceRuns: "m1_ReplaceAllString s = spec_replaceRuns False s"
  by (induction s rule: m1_ReplaceAllString.induct) (auto simp: spec_replaceRuns_True)

lemma m1_ReplaceAllString_Nil: "m1_ReplaceAllString s = [] \<longleftrightarrow> s = []"
  by (cases s) auto

lemma m1_ReplaceAllString_chars:
  "c \<in> set (m1_ReplaceAllString s) \<Longrightarrow> isAlnum c \<or> c = CHR ''-''"
  by (induction s rule: m1_ReplaceAllString.induct) (auto split: if_splits)

lemma unat_fnv32a_Write:
  "unat (fnv32a_Write h s)
     = foldl (\<lambda>h c. ((h XOR of_char c) * 16777619) mod 2 ^ 32) (unat h) s"
proof (induction s arbitrary: h)
  case Nil
  show ?case by simp
next
  case (Cons c cs)
  have "(of_char c :: nat) < 2 ^ 32"
    by (rule less_trans [OF nat_of_char_less_256]) simp
  then have c: "unat (of_nat (of_char c) :: 32 word) = of_char c"
    by (simp add: unat_of_nat)
  have "unat ((h XOR of_nat (of_char c)) * fnv_prime32)
          = ((unat h XOR of_char c) * 16777619) mod 2 ^ 32"
    by (simp only: unat_word_ariths unsigned_xor_eq c) (simp add: fnv_prime32_def)
  then show ?case using Cons by simp
qed

lemma hexDigit_zero: "d < 16 \<Longrightarrow> hexDigit d = CHR ''0'' \<longleftrightarrow> d = 0"
proof -
  assume "d < 16"
  then have "d = 0 \<or> d = 1 \<or> d = 2 \<or> d = 3 \<or> d = 4 \<or> d = 5 \<or> d = 6 \<or> d = 7 \<or> d = 8
      \<or> d = 9 \<or> d = 10 \<or> d = 11 \<or> d = 12 \<or> d = 13 \<or> d = 14 \<or> d = 15"
    by arith
  then show ?thesis
    by (auto simp: hexDigit_def)
qed

lemma fixedHex_zero: "fixedHex k 0 = replicate k (CHR ''0'')"
  by (induction k) (auto simp: hexDigit_def replicate_append_same)

lemma fixedHex_nonzero:
  "0 < n \<Longrightarrow> n < 16 ^ k \<Longrightarrow> \<exists>c \<in> set (fixedHex k n). c \<noteq> CHR ''0''"
proof (induction k arbitrary: n)
  case 0
  then show ?case by simp
next
  case (Suc k)
  show ?case
  proof (cases "n mod 16 = 0")
    case True
    with Suc.prems have "0 < n div 16" "n div 16 < 16 ^ k"
      by (auto simp: less_mult_imp_div_less)
    from Suc.IH [OF this] show ?thesis by auto
  next
    case False
    then show ?thesis using hexDigit_zero [of "n mod 16"] by simp
  qed
qed

lemma stripZeros_snoc:
  "\<exists>c \<in> set ds. c \<noteq> CHR ''0'' \<Longrightarrow> stripZeros (ds @ [d]) = stripZeros ds @ [d]"
  by (auto simp: stripZeros_def Let_def dropWhile_append)

lemma stripZeros_fixedHex:
  "0 < k \<Longrightarrow> n < 16 ^ k \<Longrightarrow> stripZeros (fixedHex k n) = fmt_x n"
proof (induction k arbitrary: n)
  case 0
  then show ?case by simp
next
  case (Suc k)
  show ?case
  proof (cases "n < 16")
    case True
    then have "fixedHex (Suc k) n = replicate k (CHR ''0'') @ [hexDigit n]"
      by (simp add: fixedHex_zero)
    then show ?thesis using True hexDigit_zero [of n]
      by (auto simp: stripZeros_def Let_def dropWhile_append fmt_x.simps [of n])
  next
    case False
    with Suc.prems have n: "0 < n div 16" "n div 16 < 16 ^ k"
      by (auto simp: less_mult_imp_div_less)
    then have k: "0 < k" by (cases k) auto
    have "stripZeros (fixedHex (Suc k) n)
            = stripZeros (fixedHex k (n div 16)) @ [hexDigit (n mod 16)]"
      using fixedHex_nonzero [OF n] by (simp add: stripZeros_snoc)
    also have "\<dots> = fmt_x (n div 16) @ [hexDigit (n mod 16)]"
      using Suc.IH [OF k n(2)] by simp
    also have "\<dots> = fmt_x n"
      using False by (subst (2) fmt_x.simps) simp
    finally show ?thesis .
  qed
qed

lemma spec_hex_fmt_x: "n < 2 ^ 32 \<Longrightarrow> spec_hex n = fmt_x n"
  unfolding spec_hex_def by (rule stripZeros_fixedHex) simp_all

lemma upper_range:
  "c \<in> set ''ABCDEFGHIJKLMNOPQRSTUVWXYZ'' \<Longrightarrow> 65 \<le> (of_char c :: nat) \<and> (of_char c :: nat) \<le> 90"
  by auto

lemma toLowerByte_spec:
  "toLowerByte c =
     (case map_of (zip ''ABCDEFGHIJKLMNOPQRSTUVWXYZ'' ''abcdefghijklmnopqrstuvwxyz'') c of
        Some l \<Rightarrow> l | None \<Rightarrow> c)"
proof (cases "65 \<le> (of_char c :: nat) \<and> (of_char c :: nat) \<le> 90")
  case True
  define n where "n = (of_char c :: nat)"
  from True have "n = 65 \<or> n = 66 \<or> n = 67 \<or> n = 68 \<or> n = 69 \<or> n = 70 \<or> n = 71 \<or> n = 72
      \<or> n = 73 \<or> n = 74 \<or> n = 75 \<or> n = 76 \<or> n = 77 \<or> n = 78 \<or> n = 79 \<or> n = 80 \<or> n = 81
      \<or> n = 82 \<or> n = 83 \<or> n = 84 \<or> n = 85 \<or> n = 86 \<or> n = 87 \<or> n = 88 \<or> n = 89 \<or> n = 90"
    unfolding n_def by arith
  moreover have "c = char_of n" by (simp add: n_def)
  ultimately show ?thesis
    by (elim disjE) (simp_all add: toLowerByte_def char_of_eq_iff)
next
  case False
  then have "c \<notin> set ''ABCDEFGHIJKLMNOPQRSTUVWXYZ''"
    using upper_range by blast
  then have "map_of (zip ''ABCDEFGHIJKLMNOPQRSTUVWXYZ'' ''abcdefghijklmnopqrstuvwxyz'') c = None"
    by (subst map_of_zip_is_None) simp_all
  moreover have "toLowerByte c = c"
    using False by (auto simp: toLowerByte_def Let_def)
  ultimately show ?thesis
    by (simp only: option.case)
qed

lemma strings_ToLower_spec: "strings_ToLower s = spec_lowercase s"
  by (simp add: strings_ToLower_def spec_lowercase_def toLowerByte_spec)

lemma runes_ascii:
  "\<forall>c \<in> set s. (of_char c :: nat) < 128 \<Longrightarrow> runes s = map (\<lambda>c. [c]) s"
proof (induction s)
  case Nil
  show ?case by (simp add: runes.simps)
next
  case (Cons c cs)
  then have "runeWidth (c # cs) = (True, 1)"
    by (simp add: runeWidth_def)
  with Cons show ?case
    by (subst runes.simps) simp
qed

lemma TruncateString_loop_ascii:
  "count < len \<Longrightarrow>
     TruncateString_loop (map (\<lambda>c. [c]) s) truncated count len
       = truncated @ take (nat (len - count)) s"
proof (induction s arbitrary: truncated count)
  case Nil
  show ?case by simp
next
  case (Cons c cs)
  show ?case
  proof (cases "count + 1 \<ge> len")
    case True
    with Cons.prems have "nat (len - count) = 1" by simp
    with True show ?thesis by simp
  next
    case False
    then have lt: "count + 1 < len" by simp
    have "nat (len - count) = Suc (nat (len - (count + 1)))"
      using lt by simp
    with False Cons.IH [OF lt] show ?thesis by simp
  qed
qed

lemma TruncateString_ascii:
  "\<forall>c \<in> set s. (of_char c :: nat) < 128 \<Longrightarrow> TruncateString s len = take (nat len) s"
  by (simp add: TruncateString_def runes_ascii TruncateString_loop_ascii)

lemma isAlnum_ascii: "isAlnum c \<Longrightarrow> (of_char c :: nat) < 128"
  by (auto simp: isAlnum_def Let_def)

lemma toLowerByte_ascii: "(of_char c :: nat) < 128 \<Longrightarrow> (of_char (toLowerByte c) :: nat) < 128"
  by (auto simp: toLowerByte_def Let_def)

lemma hexDigit_ascii: "d < 16 \<Longrightarrow> (of_char (hexDigit d) :: nat) < 128"
proof -
  assume "d < 16"
  then have "d = 0 \<or> d = 1 \<or> d = 2 \<or> d = 3 \<or> d = 4 \<or> d = 5 \<or> d = 6 \<or> d = 7 \<or> d = 8
      \<or> d = 9 \<or> d = 10 \<or> d = 11 \<or> d = 12 \<or> d = 13 \<or> d = 14 \<or> d = 15"
    by arith
  then show ?thesis
    by (auto simp: hexDigit_def)
qed

lemma fmt_x_ascii: "c \<in> set (fmt_x n) \<Longrightarrow> (of_char c :: nat) < 128"
proof (induction n rule: fmt_x.induct)
  case (1 n)
  show ?case
  proof (cases "n < 16")
    case True
    with "1.prems" show ?thesis by (auto simp: hexDigit_ascii fmt_x.simps [of n])
  next
    case False
    with "1.prems" have "c \<in> set (fmt_x (n div 16)) \<or> c = hexDigit (n mod 16)"
      by (auto simp: fmt_x.simps [of n])
    with False "1.IH" show ?thesis by (auto simp: hexDigit_ascii)
  qed
qed

lemma sanitized_ascii:
  "c \<in> set (strings_ToLower (m1_ReplaceAllString s)) \<Longrightarrow> (of_char c :: nat) < 128"
proof -
  assume "c \<in> set (strings_ToLower (m1_ReplaceAllString s))"
  then obtain d where d: "d \<in> set (m1_ReplaceAllString s)" and c: "c = toLowerByte d"
    by (auto simp: strings_ToLower_def)
  from d have "(of_char d :: nat) < 128"
    using m1_ReplaceAllString_chars [OF d] by (auto simp: isAlnum_ascii)
  with c show ?thesis by (simp add: toLowerByte_ascii)
qed

lemma nat_int_minus_one: "nat (int n - 1) = n - 1"
  by arith

lemma index_last: "xs \<noteq> [] \<Longrightarrow> index xs (int (length xs) - 1) = Inr (last xs)"
  by (cases xs rule: rev_cases) (simp_all add: index_def nat_int_minus_one)

lemma index_Nil: "index [] i = Inl IndexOutOfRange"
  by (simp add: index_def)

lemma take_length_minus_one: "take (nat (int (length xs) - 1)) xs = butlast xs"
  by (simp add: butlast_conv_take nat_int_minus_one)

lemma fixedHex_numeral:
  "fixedHex (numeral k) n = fixedHex (pred_numeral k) (n div 16) @ [hexDigit (n mod 16)]"
  by (subst numeral_eq_Suc) simp

lemma fixedHex_1: "fixedHex 1 n = [hexDigit (n mod 16)]"
  by (simp add: One_nat_def)




text \<open>
  Claim C8.  For every input whose sanitized form is not empty, \<open>KubeSafeUniqueName\<close> returns
  what the specification describes, step by step and in that order: every run of
  non-alphanumeric characters replaced by \<open>-\<close>, lower-cased, the 32-bit FNV-1a hash of that
  sanitized value rendered in lower-case hexadecimal without leading zeros, one trailing \<open>-\<close>
  stripped, \<open>-\<close> and the hash appended, and the result cut to \<open>255 - len(hash) - 1\<close>
  characters (the cut comes after the hash is appended).
\<close>

theorem KubeSafeUniqueName_refines_spec:
  "spec_lowercase (spec_replaceRuns False s) \<noteq> [] \<Longrightarrow>
     KubeSafeUniqueName s = Inr (spec_KubeSafeUniqueName s)"
proof -
  define name where "name = strings_ToLower (m1_ReplaceAllString s)"
  define hash where "hash = fmt_x (unat (fnv32a_Write fnv_New32a name))"
  define stripped where "stripped = (if last name = CHR ''-'' then butlast name else name)"
  assume "spec_lowercase (spec_replaceRuns False s) \<noteq> []"
  then have ne: "name \<noteq> []"
    by (simp add: name_def strings_ToLower_spec m1_is_spec_replaceRuns)
  have name_spec: "name = spec_lowercase (spec_replaceRuns False s)"
    by (simp add: name_def strings_ToLower_spec m1_is_spec_replaceRuns)
  have "unat (fnv32a_Write fnv_New32a name) = spec_fnv1a32 name"
    by (simp add: unat_fnv32a_Write spec_fnv1a32_def fnv_New32a_def)
  moreover have "unat (fnv32a_Write fnv_New32a name) < 2 ^ 32"
    using unsigned_less [of "fnv32a_Write fnv_New32a name"] by simp
  ultimately have hash_spec: "hash = spec_hex (spec_fnv1a32 name)"
    by (simp add: hash_def spec_hex_fmt_x)
  have ascii: "\<forall>c \<in> set (stripped @ ''-'' @ hash). (of_char c :: nat) < 128"
    using sanitized_ascii [of _ s] fmt_x_ascii in_set_butlastD [of _ name]
    by (auto simp: stripped_def hash_def name_def [symmetric])
  have "KubeSafeUniqueName s
          = Inr (TruncateString (stripped @ ''-'' @ hash) (255 - int (length hash) - 1))"
    using ne
    by (simp add: KubeSafeUniqueName_def Let_def name_def [symmetric] hash_def [symmetric]
          index_last take_length_minus_one stripped_def)
  also have "TruncateString (stripped @ ''-'' @ hash) (255 - int (length hash) - 1)
          = take (255 - length hash - 1) (stripped @ ''-'' @ hash)"
    by (simp only: TruncateString_ascii [OF ascii]) (simp add: nat_diff_distrib')
  also have "stripped = spec_stripTrailingDash name"
    using ne by (simp add: stripped_def spec_stripTrailingDash_def)
  finally show ?thesis
    by (simp add: spec_KubeSafeUniqueName_def Let_def name_spec [symmetric] hash_spec [symmetric])
qed

theorem KubeSafeUniqueName_refines_spec_witness:
  "spec_lowercase (spec_replaceRuns False ''A_'') \<noteq> []
     \<and> KubeSafeUniqueName ''A_'' = Inr ''a-248c93''"
proof -
  have h: "spec_lowercase (spec_replaceRuns False ''A_'') = ''a-''"
    by (simp add: isAlnum_def spec_lowercase_def)
  have f: "spec_fnv1a32 ''a-'' = 2395283"
    by (simp add: spec_fnv1a32_def)
  have "fixedHex 8 2395283 = ''00248c93''"
    by (simp add: fixedHex_numeral fixedHex_1 hexDigit_def)
  then have x: "spec_hex 2395283 = ''248c93''"
    by (simp add: spec_hex_def stripZeros_def)
  have v: "spec_KubeSafeUniqueName ''A_'' = ''a-248c93''"
    unfolding spec_KubeSafeUniqueName_def Let_def h f x
    by (simp add: spec_stripTrailingDash_def)
  show ?thesis
    using KubeSafeUniqueName_refines_spec [of "''A_''"] h v by simp
qed

text \<open>
  Claim C10.  \<open>KubeSafeUniqueName\<close> reads \<open>name[len(name)-1]\<close> with no guard.  For the empty
  input the sanitized string is empty and the read is out of range, a panic; for every other
  input the sanitized string is not empty and the function returns.  So it is total exactly on
  the non-empty inputs.
\<close>

theorem KubeSafeUniqueName_total_iff_nonempty:
  "(s = [] \<longrightarrow> m1_ReplaceAllString s = [] \<and> KubeSafeUniqueName s = Inl IndexOutOfRange) \<and>
   (s \<noteq> [] \<longrightarrow> m1_ReplaceAllString s \<noteq> [] \<and> (\<exists>r. KubeSafeUniqueName s = Inr r))"
proof (cases "s = []")
  case True
  then show ?thesis
    by (simp add: KubeSafeUniqueName_def strings_ToLower_def index_Nil)
next
  case False
  define name where "name = strings_ToLower (m1_ReplaceAllString s)"
  from False have ne: "name \<noteq> []"
    by (simp add: name_def strings_ToLower_def m1_ReplaceAllString_Nil)
  have "\<exists>r. KubeSafeUniqueName s = Inr r"
    unfolding KubeSafeUniqueName_def Let_def name_def [symmetric]
    by (simp add: index_last [OF ne])
  with False show ?thesis
    by (simp add: m1_ReplaceAllString_Nil)
qed

theorem KubeSafeUniqueName_total_iff_nonempty_witness:
  "KubeSafeUniqueName [] = Inl IndexOutOfRange \<and> (\<exists>r. KubeSafeUniqueName ''A_'' = Inr r)"
  using KubeSafeUniqueName_total_iff_nonempty [of "[]"]
    KubeSafeUniqueName_total_iff_nonempty [of "''A_''"]
  by simp

lemma isAlnum_dash: "\<not> isAlnum (CHR ''-'')"
  by (simp add: isAlnum_def)

lemma noDoubleDash_Cons:
  "noDoubleDash (c # xs)
     = ((xs = [] \<or> \<not> (c = CHR ''-'' \<and> hd xs = CHR ''-'')) \<and> noDoubleDash xs)"
  by (cases xs) auto

lemma hd_m1_ReplaceAllString:
  "s \<noteq> [] \<Longrightarrow> isAlnum (hd s) \<Longrightarrow> hd (m1_ReplaceAllString s) = hd s"
  by (cases s) auto

lemma noDoubleDash_m1: "noDoubleDash (m1_ReplaceAllString s)"
proof (induction s rule: m1_ReplaceAllString.induct)
  case 1
  show ?case by simp
next
  case (2 c cs)
  show ?case
  proof (cases "isAlnum c")
    case True
    with 2 isAlnum_dash show ?thesis
      by (auto simp: noDoubleDash_Cons)
  next
    case False
    define rest where "rest = dropWhile (\<lambda>d. \<not> isAlnum d) cs"
    have "rest \<noteq> [] \<Longrightarrow> isAlnum (hd rest)"
      unfolding rest_def using hd_dropWhile [of "\<lambda>d. \<not> isAlnum d" cs] by simp
    then have "rest \<noteq> [] \<Longrightarrow> hd (m1_ReplaceAllString rest) \<noteq> CHR ''-''"
      using isAlnum_dash by (auto simp: hd_m1_ReplaceAllString)
    with False 2 show ?thesis
      by (auto simp: noDoubleDash_Cons rest_def [symmetric] m1_ReplaceAllString_Nil)
  qed
qed

lemma noDoubleDash_drop: "noDoubleDash xs \<Longrightarrow> noDoubleDash (drop n xs)"
proof (induction n arbitrary: xs)
  case 0
  then show ?case by simp
next
  case (Suc n)
  then show ?case by (cases xs) (auto simp: noDoubleDash_Cons)
qed

lemma TruncateStringFromBeginning_props:
  "0 < len \<Longrightarrow> int (length (TruncateStringFromBeginning str len)) \<le> len"
  "0 < len \<Longrightarrow> str \<noteq> [] \<Longrightarrow> TruncateStringFromBeginning str len \<noteq> []"
  "set (TruncateStringFromBeginning str len) \<subseteq> set str"
  "noDoubleDash str \<Longrightarrow> noDoubleDash (TruncateStringFromBeginning str len)"
  by (auto simp: TruncateStringFromBeginning_def noDoubleDash_drop dest: in_set_dropD)

text \<open>
  Claim C9.  For every input, \<open>KubeSafeLabel\<close> returns (it never panics) a string of at most
  63 characters that does not start with \<open>-\<close> and has only characters of
  \<open>[A-Za-z0-9._-]\<close>; for the empty input it returns the empty string.
\<close>

theorem KubeSafeLabel_safe:
  "(\<exists>r. KubeSafeLabel s = Inr r \<and> length r \<le> 63 \<and> (r = [] \<or> hd r \<noteq> CHR ''-'')
        \<and> (\<forall>c \<in> set r. isLabelChar c))
   \<and> KubeSafeLabel [] = Inr []"
proof (cases "s = []")
  case True
  then show ?thesis by (simp add: KubeSafeLabel_def)
next
  case False
  define t where "t = TruncateStringFromBeginning (m1_ReplaceAllString s) 63"
  define r where "r = (if hd t = CHR ''-'' then drop 1 t else t)"
  have t: "t \<noteq> []" "length t \<le> 63" "set t \<subseteq> set (m1_ReplaceAllString s)" "noDoubleDash t"
    using False TruncateStringFromBeginning_props [where len = 63 and str = "m1_ReplaceAllString s"]
    by (simp_all add: t_def m1_ReplaceAllString_Nil noDoubleDash_m1)
  then have "index t 0 = Inr (hd t)"
    by (cases t) (simp_all add: index_def)
  then have res: "KubeSafeLabel s = Inr r"
    using False by (simp add: KubeSafeLabel_def Let_def t_def [symmetric] r_def)
  have len: "length r \<le> 63"
    using t(2) by (auto simp: r_def)
  have lead: "r = [] \<or> hd r \<noteq> CHR ''-''"
  proof (cases t)
    case Nil
    with t(1) show ?thesis by simp
  next
    case (Cons c cs)
    with t(4) show ?thesis
      by (auto simp: r_def noDoubleDash_Cons)
  qed
  have "set r \<subseteq> set t"
    by (auto simp: r_def dest: in_set_dropD)
  with t(3) have chars: "\<forall>c \<in> set r. isLabelChar c"
    using m1_ReplaceAllString_chars by (auto simp: isLabelChar_def)
  from res len lead chars show ?thesis
    by (simp add: KubeSafeLabel_def)
qed

theorem KubeSafeLabel_safe_witness:
  "KubeSafeLabel ''--env/dev'' = Inr ''env-dev''
     \<and> (\<exists>r. KubeSafeLabel ''--env/dev'' = Inr r \<and> length r \<le> 63 \<and> (r = [] \<or> hd r \<noteq> CHR ''-'')
            \<and> (\<forall>c \<in> set r. isLabelChar c))
     \<and> KubeSafeLabel [] = Inr []"
  using KubeSafeLabel_safe [of "''--env/dev''"]
  by (simp add: KubeSafeLabel_def TruncateStringFromBeginning_def index_def isAlnum_def)

section \<open>Properties of the reconcilers\<close>

subsection \<open>What an action appends to the log\<close>

lemma emits_ret: "emits Q (ret x)"
  by (simp add: emits_def ret_def)

lemma emits_throw: "emits Q (throw e)"
  by (simp add: emits_def throw_def)

lemma emits_outOfFuel: "emits Q outOfFuel"
  by (simp add: emits_def outOfFuel_def)

lemma emits_orPanic: "emits Q (orPanic r)"
  by (simp add: emits_def orPanic_def split: sum.split)

lemma emits_perform: "Q c \<Longrightarrow> emits Q (perform c answer)"
  by (simp add: emits_def perform_def)

lemma emits_andThen:
  assumes m: "emits Q m" and f: "\<And>x. emits Q (f x)"
  shows "emits Q (andThen m f)"
  unfolding emits_def
proof
  fix log
  from m obtain new where new: "snd (m log) = log @ new" "list_all Q new"
    unfolding emits_def by blast
  show "\<exists>new. snd (andThen m f log) = log @ new \<and> list_all Q new"
  proof (cases "m log")
    case (Pair out log1)
    with new have log1: "log1 = log @ new" by simp
    show ?thesis
    proof (cases out)
      case (Return x)
      from f [of x] obtain new' where "snd (f x log1) = log1 @ new'" "list_all Q new'"
        unfolding emits_def by blast
      with Pair Return log1 new(2) show ?thesis
        by (intro exI [of _ "new @ new'"]) (simp add: andThen_def)
    qed (use Pair log1 new(2) in \<open>auto simp: andThen_def\<close>)
  qed
qed

lemma emits_check: "emits Q m \<Longrightarrow> emits Q (check m)"
  unfolding check_def
  by (rule emits_andThen) (auto simp: emits_ret emits_throw split: option.split)

lemma emits_RetryOnConflict:
  "(\<And>s. emits Q (fn s)) \<Longrightarrow> emits Q (RetryOnConflict steps fn s)"
proof (induction steps arbitrary: s)
  case 0
  show ?case by (simp add: emits_ret)
next
  case (Suc steps)
  show ?case
    by (simp, rule emits_andThen) (auto simp: Suc emits_ret)
qed

lemmas emits_intros =
  emits_ret emits_throw emits_outOfFuel emits_orPanic emits_perform emits_andThen emits_check

lemma emits_andThen_orPanic:
  "(\<And>x. r = Inr x \<Longrightarrow> emits Q (f x)) \<Longrightarrow> emits Q (andThen (orPanic r) f)"
  by (cases r) (auto simp: emits_def andThen_def orPanic_def)

lemma emits_new:
  "emits Q m \<Longrightarrow> m log = (out, log') \<Longrightarrow> c \<in> set (drop (length log) log') \<Longrightarrow> Q c"
  unfolding emits_def by (metis append_eq_conv_conj list_all_iff snd_conv)

lemma emits_copyCommitStatuses_items:
  "emits (\<lambda>c. \<not> isUpdatePullRequest c) (copyCommitStatuses_items w a b br items)"
proof (induction items)
  case Nil
  show ?case by (simp add: emits_ret)
next
  case (Cons commitStatus rest)
  show ?case
    by (auto simp: Cons client_Get_CommitStatus_def client_Create_CommitStatus_def
          client_Update_CommitStatus_def
        intro!: emits_intros split: sum.split)
qed

lemma emits_copyCommitStatuses:
  "emits (\<lambda>c. \<not> isUpdatePullRequest c) (copyCommitStatuses w sel a b br)"
proof (induction sel)
  case Nil
  show ?case by (simp add: emits_ret)
next
  case (Cons val rest)
  show ?case
    by (auto simp: Cons client_List_CommitStatus_def emits_copyCommitStatuses_items
        intro!: emits_intros split: sum.split flow.split)
qed

lemma andThen_Return:
  "andThen m f log = (Return r, log')
     \<longleftrightarrow> (\<exists>x log1. m log = (Return x, log1) \<and> f x log1 = (Return r, log'))"
  by (cases "m log") (auto simp: andThen_def split: outcome.splits)

subsection \<open>The ordered lookups\<close>

text \<open>
  Where \<open>GetEnvironmentStatusByBranch\<close> finds the branch at a position other than 0,
  \<open>GetPreviousEnvironmentStatusByBranch\<close> returns the entry just before it in
  \<open>GetEnvironmentsFromStatusInOrder\<close>, that is, the status of the preceding environment in
  the order of the spec.
\<close>

lemma GetEnvironmentStatusByBranch_loop_found:
  "GetEnvironmentStatusByBranch_loop b i xs = (idx, r) \<Longrightarrow> idx \<noteq> -1 \<Longrightarrow>
     \<exists>j<length xs. idx = int (i + j) \<and> es_Branch (xs ! j) = b
        \<and> (\<forall>j'<j. es_Branch (xs ! j') \<noteq> b) \<and> r = Some (xs ! j)"
proof (induction xs arbitrary: i)
  case Nil
  then show ?case by simp
next
  case (Cons x xs)
  show ?case
  proof (cases "es_Branch x = b")
    case True
    with Cons.prems show ?thesis
      by (intro exI [of _ 0]) auto
  next
    case False
    with Cons.prems have "GetEnvironmentStatusByBranch_loop b (Suc i) xs = (idx, r)"
      by simp
    from Cons.IH [OF this Cons.prems(2)] obtain j
      where j: "j < length xs" "idx = int (Suc i + j)" "es_Branch (xs ! j) = b"
        "\<forall>j'<j. es_Branch (xs ! j') \<noteq> b" "r = Some (xs ! j)"
      by blast
    with False show ?thesis
      by (intro exI [of _ "Suc j"]) (auto simp: less_Suc_eq_0_disj)
  qed
qed

lemma GetEnvironmentStatusByBranch_loop_Some:
  "snd (GetEnvironmentStatusByBranch_loop b i xs) = Some c
     \<Longrightarrow> fst (GetEnvironmentStatusByBranch_loop b i xs) \<noteq> -1"
  by (induction xs arbitrary: i) auto

lemma GetPreviousEnvironmentStatusByBranch_loop_found:
  "j < length xs \<Longrightarrow> es_Branch (xs ! j) = b \<Longrightarrow> \<forall>j'<j. es_Branch (xs ! j') \<noteq> b
     \<Longrightarrow> 0 < i + j \<Longrightarrow> envs \<noteq> [] \<Longrightarrow>
   GetPreviousEnvironmentStatusByBranch_loop envs b i xs
     = (int (i + j) + 1, Some (envs ! (i + j - 1)))"
proof (induction xs arbitrary: i j)
  case Nil
  then show ?case by simp
next
  case (Cons x xs)
  show ?case
  proof (cases j)
    case 0
    with Cons.prems show ?thesis by simp
  next
    case (Suc j')
    with Cons.prems have x: "es_Branch x \<noteq> b" by auto
    have "GetPreviousEnvironmentStatusByBranch_loop envs b (Suc i) xs
            = (int (Suc i + j') + 1, Some (envs ! (Suc i + j' - 1)))"
      using Cons.prems Suc by (intro Cons.IH) auto
    with x Suc show ?thesis by simp
  qed
qed

lemma previous_is_predecessor:
  assumes "snd (GetEnvironmentStatusByBranch ps b) = Some current"
    and "fst (GetEnvironmentStatusByBranch ps b) \<noteq> 0"
  shows "snd (GetPreviousEnvironmentStatusByBranch ps b)
           = Some (GetEnvironmentsFromStatusInOrder ps
                     ! (nat (fst (GetEnvironmentStatusByBranch ps b)) - 1))"
proof -
  define xs where "xs = GetEnvironmentsFromStatusInOrder ps"
  define idx where "idx = fst (GetEnvironmentStatusByBranch_loop b 0 xs)"
  have "idx \<noteq> -1"
    using assms(1) GetEnvironmentStatusByBranch_loop_Some [of b 0 xs current]
    by (simp add: GetEnvironmentStatusByBranch_def xs_def idx_def)
  moreover have "GetEnvironmentStatusByBranch_loop b 0 xs
      = (idx, snd (GetEnvironmentStatusByBranch_loop b 0 xs))"
    by (simp add: idx_def)
  ultimately obtain j where j: "j < length xs" "idx = int j" "es_Branch (xs ! j) = b"
      "\<forall>j'<j. es_Branch (xs ! j') \<noteq> b"
    using GetEnvironmentStatusByBranch_loop_found [of b 0 xs idx] by auto
  from assms(2) j(2) have "0 < j"
    by (simp add: GetEnvironmentStatusByBranch_def xs_def idx_def)
  moreover from j(1) have "xs \<noteq> []" by auto
  ultimately have "GetPreviousEnvironmentStatusByBranch_loop xs b 0 xs
      = (int (0 + j) + 1, Some (xs ! (0 + j - 1)))"
    using j by (intro GetPreviousEnvironmentStatusByBranch_loop_found) auto
  with j(2) show ?thesis
    by (simp add: GetPreviousEnvironmentStatusByBranch_def GetEnvironmentStatusByBranch_def
          Let_def xs_def [symmetric] idx_def [symmetric])
qed

text \<open>
  The statuses in spec order are, environment after environment of the spec, the status
  entries of its branch.
\<close>

lemma concat_map_if_filter:
  "concat (map (\<lambda>x. if P x then [x] else []) xs) = filter P xs"
  by (induction xs) auto

lemma GetEnvironmentsFromStatusInOrder_blocks:
  "GetEnvironmentsFromStatusInOrder ps
     = concat (map (\<lambda>e. filter (\<lambda>st. Branch e = es_Branch st) (ps_Status ps))
         (Environments (ps_Spec ps)))"
  by (simp add: GetEnvironmentsFromStatusInOrder_def concat_map_if_filter)

lemma GetEnvironmentStatusByBranch_loop_first:
  "\<forall>x\<in>set pre. es_Branch x \<noteq> b \<Longrightarrow> es_Branch c = b \<Longrightarrow>
     GetEnvironmentStatusByBranch_loop b i (pre @ c # post) = (int (i + length pre), Some c)"
  by (induction pre arbitrary: i) auto

subsection \<open>The status entries after \<open>calculateStatus\<close>\<close>

text \<open>
  \<open>calculateStatus\<close> changes no branch of a status entry and removes no entry: for every
  environment of the spec it replaces the first entry of that branch or appends one, and the
  roll-ups are written into entries that exist.  So when it returns, the spec is what it was,
  every environment of the spec has a status entry, and a status with one entry per branch
  still has one entry per branch.
\<close>

lemma map_update_same: "(map f xs)[n := f (xs ! n)] = map f xs"
  by (metis list_update_id map_update)

lemma set_branches:
  "setActiveCommitStatus i st sha envs = Inr envs' \<Longrightarrow> map es_Branch envs' = map es_Branch envs"
  "setActiveCommitStatusState i st envs = Inr envs' \<Longrightarrow> map es_Branch envs' = map es_Branch envs"
  "setProposedCommitStatus i st sha envs = Inr envs' \<Longrightarrow> map es_Branch envs' = map es_Branch envs"
  "setProposedCommitStatusState i st envs = Inr envs' \<Longrightarrow> map es_Branch envs' = map es_Branch envs"
  by (auto simp: setActiveCommitStatus_def setActiveCommitStatusState_def
        setProposedCommitStatus_def setProposedCommitStatusState_def index_def map_update
        map_update_same
      split: sum.splits if_splits)

lemma orPanic_Return: "orPanic r log = (Return x, log') \<longleftrightarrow> r = Inr x \<and> log' = log"
  by (auto simp: orPanic_def split: sum.splits)

lemma calculateStatus_keys_branches:
  assumes setter: "\<And>i st sha envs envs'. setter i st sha envs = Inr envs'
      \<Longrightarrow> map es_Branch envs' = map es_Branch envs"
  shows "calculateStatus_keys w sha setter i keys (acc, envs) log = (Return (acc', envs'), log')
     \<Longrightarrow> map es_Branch envs' = map es_Branch envs"
proof (induction keys arbitrary: acc envs log)
  case Nil
  then show ?case by (simp add: ret_def)
next
  case (Cons status rest)
  from Cons.prems [unfolded calculateStatus_keys.simps andThen_Return]
  obtain label log1 r log2
    where "client_List_CommitStatus w label sha log1 = (Return r, log2)"
      and r: "(case r of
         Inl e \<Rightarrow> throw e
       | Inr items \<Rightarrow>
           (let csListSlice = notCopies items
            in if length csListSlice = 1 then
                 calculateStatus_keys w sha setter i rest (acc @ [csListSlice ! 0], envs)
               else if length csListSlice > 1 then
                 andThen (orPanic (setter i ''to-many-matching-sha'' ''to-many-matching-sha'' envs))
                   (\<lambda>envs. calculateStatus_keys w sha setter i rest (acc, envs))
               else
                 andThen (orPanic (setter i ''no-commit-status-found'' ''no-commit-status-found'' envs))
                   (\<lambda>envs. calculateStatus_keys w sha setter i rest (acc, envs)))) log2
        = (Return (acc', envs'), log')"
    by blast
  from r obtain items where items: "r = Inr items"
    by (cases r) (auto simp: throw_def)
  consider "length (notCopies items) = 1" | "length (notCopies items) > 1"
    | "length (notCopies items) = 0"
    by arith
  then show ?case
  proof cases
    case 1
    with r items show ?thesis
      by (auto dest: Cons.IH)
  next
    case 2
    with r items obtain envs1 l1
      where "setter i ''to-many-matching-sha'' ''to-many-matching-sha'' envs = Inr envs1"
        and "calculateStatus_keys w sha setter i rest (acc, envs1) l1 = (Return (acc', envs'), log')"
      by (auto simp: andThen_Return orPanic_Return)
    then show ?thesis
      using Cons.IH [of acc envs1 l1] setter [of i _ _ envs envs1] by simp
  next
    case 3
    with r items obtain envs1 l1
      where "setter i ''no-commit-status-found'' ''no-commit-status-found'' envs = Inr envs1"
        and "calculateStatus_keys w sha setter i rest (acc, envs1) l1 = (Return (acc', envs'), log')"
      by (auto simp: andThen_Return orPanic_Return)
    then show ?thesis
      using Cons.IH [of acc envs1 l1] setter [of i _ _ envs envs1] by simp
  qed
qed

lemma UpsertEnvironmentStatus_loop_branches:
  "\<forall>x\<in>set pre. es_Branch x \<noteq> es_Branch i \<Longrightarrow>
   map es_Branch (UpsertEnvironmentStatus_loop (pre @ rest) i (length pre) rest)
     = (if es_Branch i \<in> es_Branch ` set rest then map es_Branch (pre @ rest)
        else map es_Branch (pre @ rest) @ [es_Branch i])"
proof (induction rest arbitrary: pre)
  case Nil
  then show ?case by simp
next
  case (Cons x rest)
  show ?case
  proof (cases "es_Branch x = es_Branch i")
    case True
    then show ?thesis by (simp add: map_update list_update_append)
  next
    case False
    with Cons.prems have "\<forall>y\<in>set (pre @ [x]). es_Branch y \<noteq> es_Branch i" by simp
    from Cons.IH [OF this] False show ?thesis by simp
  qed
qed

lemma UpsertEnvironmentStatus_branches:
  "map es_Branch (UpsertEnvironmentStatus slc i)
     = (if es_Branch i \<in> es_Branch ` set slc then map es_Branch slc
        else map es_Branch slc @ [es_Branch i])"
  using UpsertEnvironmentStatus_loop_branches [of "[]" i slc]
  by (simp add: UpsertEnvironmentStatus_def)


lemma calculateStatus_environment_branches:
  assumes "calculateStatus_environment w pcMap ps environment log = (Return ps', log')"
  shows "ps_Spec ps' = ps_Spec ps
    \<and> map es_Branch (ps_Status ps')
        = (if Branch environment \<in> es_Branch ` set (ps_Status ps) then map es_Branch (ps_Status ps)
           else map es_Branch (ps_Status ps) @ [Branch environment])"
proof -
  from assms obtain pc where pc: "pcMap (Branch environment) = Some pc"
    by (auto simp: calculateStatus_environment_def throw_def split: option.splits)
  define envs where "envs = UpsertEnvironmentStatus (ps_Status ps) (initialEnvironmentStatus environment pc)"
  have b: "es_Branch (initialEnvironmentStatus environment pc) = Branch environment"
    by (simp add: initialEnvironmentStatus_def)
  have keys: "calculateStatus_keys w sha setter i ks (acc, e) l = (Return (acc', e'), l')
      \<Longrightarrow> setter = setActiveCommitStatus \<or> setter = setProposedCommitStatus
      \<Longrightarrow> map es_Branch e' = map es_Branch e" for sha setter i ks acc e l acc' e' l'
    by (erule calculateStatus_keys_branches [rotated]) (auto dest: set_branches)
  from assms have "ps_Spec ps' = ps_Spec ps \<and> map es_Branch (ps_Status ps') = map es_Branch envs"
    unfolding calculateStatus_environment_def pc option.case Let_def envs_def [symmetric]
    by (auto simp: andThen_Return orPanic_Return ret_def
          split: if_splits option.splits dest!: keys set_branches)
  then show ?thesis
    by (simp add: envs_def UpsertEnvironmentStatus_branches b)
qed


lemma calculateStatus_loop_branches:
  "calculateStatus_loop w pcMap envs ps log = (Return ps', log') \<Longrightarrow>
     ps_Spec ps' = ps_Spec ps
     \<and> es_Branch ` set (ps_Status ps') = es_Branch ` set (ps_Status ps) \<union> Branch ` set envs
     \<and> (distinct (map es_Branch (ps_Status ps)) \<longrightarrow> distinct (map es_Branch (ps_Status ps')))"
proof (induction envs arbitrary: ps log)
  case Nil
  then show ?case by (simp add: ret_def)
next
  case (Cons environment rest)
  from Cons.prems obtain ps1 log1
    where one: "calculateStatus_environment w pcMap ps environment log = (Return ps1, log1)"
      and more: "calculateStatus_loop w pcMap rest ps1 log1 = (Return ps', log')"
    by (auto simp: andThen_Return)
  from calculateStatus_environment_branches [OF one]
  have spec: "ps_Spec ps1 = ps_Spec ps"
    and branches: "map es_Branch (ps_Status ps1)
        = (if Branch environment \<in> es_Branch ` set (ps_Status ps) then map es_Branch (ps_Status ps)
           else map es_Branch (ps_Status ps) @ [Branch environment])"
    by simp_all
  from branches have set1: "es_Branch ` set (ps_Status ps1)
      = insert (Branch environment) (es_Branch ` set (ps_Status ps))"
    by (metis (no_types, lifting) Un_insert_right insert_absorb list.set(1,2) list.set_map
        set_append sup_bot.right_neutral)
  from branches have distinct1: "distinct (map es_Branch (ps_Status ps))
      \<Longrightarrow> distinct (map es_Branch (ps_Status ps1))"
    by (auto split: if_splits)
  from Cons.IH [OF more] spec set1 distinct1 show ?case
    by auto
qed

lemma calculateStatus_branches:
  assumes "calculateStatus w ps pcMap log = (Return ps', log')"
  shows "ps_Spec ps' = ps_Spec ps"
    and "Branch ` set (Environments (ps_Spec ps')) \<subseteq> es_Branch ` set (ps_Status ps')"
    and "distinct (map es_Branch (ps_Status ps)) \<Longrightarrow> distinct (map es_Branch (ps_Status ps'))"
  using calculateStatus_loop_branches [OF assms [unfolded calculateStatus_def]] by auto

text \<open>
  Hence, for a strategy whose environments have distinct branches and all have a status
  entry, the lookups of the pass for the environment at position \<open>k > 0\<close> of the spec find
  an entry of that environment at a position other than 0, and as the previous status an
  entry of the environment at position \<open>k - 1\<close> of the spec.
\<close>

lemma ordered_lookup:
  assumes distinct: "distinct (map Branch (Environments (ps_Spec ps)))"
    and covered: "Branch ` set (Environments (ps_Spec ps)) \<subseteq> es_Branch ` set (ps_Status ps)"
    and k: "0 < k" "k < length (Environments (ps_Spec ps))"
  shows "\<exists>i current previous.
      GetEnvironmentStatusByBranch ps (Branch (Environments (ps_Spec ps) ! k)) = (i, Some current)
    \<and> i \<noteq> 0
    \<and> current \<in> set (ps_Status ps)
    \<and> es_Branch current = Branch (Environments (ps_Spec ps) ! k)
    \<and> snd (GetPreviousEnvironmentStatusByBranch ps (Branch (Environments (ps_Spec ps) ! k)))
        = Some previous
    \<and> previous \<in> set (ps_Status ps)
    \<and> es_Branch previous = Branch (Environments (ps_Spec ps) ! (k - 1))"
proof -
  define envs where "envs = Environments (ps_Spec ps)"
  define block where "block = (\<lambda>e :: Environment. filter (\<lambda>st. Branch e = es_Branch st) (ps_Status ps))"
  define b where "b = Branch (envs ! k)"
  define P where "P = concat (map block (take (k - 1) envs))"
  define Bp where "Bp = block (envs ! (k - 1))"
  define Bc where "Bc = block (envs ! k)"
  define R where "R = concat (map block (drop (Suc k) envs))"
  from k have k': "k - 1 < length envs" "k < length envs" "Suc (k - 1) = k"
    by (simp_all add: envs_def)
  have "envs = take k envs @ envs ! k # drop (Suc k) envs"
    using k'(2) by (rule id_take_nth_drop)
  moreover have "take k envs = take (k - 1) envs @ [envs ! (k - 1)]"
    using take_Suc_conv_app_nth [OF k'(1)] k'(3) by simp
  ultimately have split: "envs = take (k - 1) envs @ envs ! (k - 1) # envs ! k # drop (Suc k) envs"
    by simp
  have ordered: "GetEnvironmentsFromStatusInOrder ps = (P @ Bp) @ Bc @ R"
    unfolding GetEnvironmentsFromStatusInOrder_blocks envs_def [symmetric] block_def [symmetric]
    by (subst split) (simp add: P_def Bp_def Bc_def R_def)
  have nonempty: "block e \<noteq> []" if "e \<in> set envs" for e
    using covered that by (auto simp: block_def envs_def filter_empty_conv)
  have "envs ! (k - 1) \<in> set envs" "envs ! k \<in> set envs"
    using k' by simp_all
  then have Bp: "Bp \<noteq> []" and Bc: "Bc \<noteq> []"
    by (simp_all add: Bp_def Bc_def nonempty)
  from Bc obtain c cs where c: "Bc = c # cs"
    by (cases Bc) auto
  then have "c \<in> set Bc" by simp
  then have "c \<in> set (block (envs ! k))"
    unfolding Bc_def .
  then have c_in: "c \<in> set (ps_Status ps)" and c_branch: "es_Branch c = b"
    by (auto simp: block_def b_def)
  have before: "es_Branch x \<noteq> b" if "x \<in> set (P @ Bp)" for x
  proof -
    from that obtain e where e: "e \<in> set (take k envs)" "x \<in> set (block e)"
      using \<open>take k envs = take (k - 1) envs @ [envs ! (k - 1)]\<close>
      by (auto simp: P_def Bp_def)
    from e(1) obtain j where j: "j < k" "e = envs ! j"
      using k'(2) by (auto simp: in_set_conv_nth)
    from distinct j k'(2) have "Branch (envs ! j) \<noteq> Branch (envs ! k)"
      by (auto simp: envs_def [symmetric] distinct_conv_nth)
    with e(2) j show ?thesis
      by (auto simp: block_def b_def)
  qed
  have found: "GetEnvironmentStatusByBranch ps b = (int (length (P @ Bp)), Some c)"
    unfolding GetEnvironmentStatusByBranch_def ordered c
    using GetEnvironmentStatusByBranch_loop_first [of "P @ Bp" b c 0 "cs @ R"] before c_branch
    by simp
  from Bp have len: "length (P @ Bp) \<noteq> 0" by simp
  have "snd (GetPreviousEnvironmentStatusByBranch ps b)
      = Some (GetEnvironmentsFromStatusInOrder ps ! (length (P @ Bp) - 1))"
  proof -
    have "snd (GetEnvironmentStatusByBranch ps b) = Some c"
      and "fst (GetEnvironmentStatusByBranch ps b) \<noteq> 0"
      and "nat (fst (GetEnvironmentStatusByBranch ps b)) = length (P @ Bp)"
    proof -
      from Bp have "0 < length P + length Bp" by simp
      then have pos: "int (length P) + int (length Bp) \<noteq> 0" by arith
      from found show "snd (GetEnvironmentStatusByBranch ps b) = Some c" by simp
      from found pos show "fst (GetEnvironmentStatusByBranch ps b) \<noteq> 0" by simp
      from found show "nat (fst (GetEnvironmentStatusByBranch ps b)) = length (P @ Bp)" by simp
    qed
    with previous_is_predecessor [of ps b c] show ?thesis
      by simp
  qed
  moreover have "GetEnvironmentsFromStatusInOrder ps ! (length (P @ Bp) - 1) = last Bp"
  proof -
    from Bp have ne: "P @ Bp \<noteq> []" by simp
    then have "length (P @ Bp) - 1 < length (P @ Bp)"
      by (simp del: length_append)
    then have "((P @ Bp) @ Bc @ R) ! (length (P @ Bp) - 1) = (P @ Bp) ! (length (P @ Bp) - 1)"
      by (rule nth_append_left)
    also have "\<dots> = last (P @ Bp)"
      using ne by (rule last_conv_nth [symmetric])
    also have "\<dots> = last Bp"
      using Bp by simp
    finally show ?thesis
      unfolding ordered .
  qed
  moreover from Bp have "last Bp \<in> set Bp"
    by (rule last_in_set)
  then have "last Bp \<in> set (block (envs ! (k - 1)))"
    unfolding Bp_def .
  then have "last Bp \<in> set (ps_Status ps)" "es_Branch (last Bp) = Branch (envs ! (k - 1))"
    by (auto simp: block_def)
  moreover have "int (length (P @ Bp)) \<noteq> 0"
  proof -
    from Bp have "0 < length Bp" by simp
    then have "0 < length (P @ Bp)" by simp
    then show ?thesis by (simp del: length_append)
  qed
  ultimately show ?thesis
    using found c_in c_branch
    unfolding b_def envs_def
    by (intro exI [of _ "int (length (P @ Bp))"] exI [of _ c] exI [of _ "last Bp"])
       (simp del: length_append)
qed

subsection \<open>The merge decision\<close>

lemma Reconcile_environment_no_update:
  assumes "\<not> ((fst (GetEnvironmentStatusByBranch ps (Branch environment)) = 0
              \<or> (activeChecksPassed
                    (snd (GetPreviousEnvironmentStatusByBranch ps (Branch environment)))
                    (proposedCommitMap (Branch environment))
                    (snd (GetEnvironmentStatusByBranch ps (Branch environment))) = Inr True
                  \<and> proposedChecksPassed (snd (GetEnvironmentStatusByBranch ps (Branch environment)))))
             \<and> GetAutoMerge environment)"
  shows "emits (\<lambda>c. \<not> isUpdatePullRequest c)
           (Reconcile_environment w ps proposedCommitMap environment)"
proof -
  obtain environmentIndex environmentStatus
    where e: "GetEnvironmentStatusByBranch ps (Branch environment)
                = (environmentIndex, environmentStatus)"
    by (cases "GetEnvironmentStatusByBranch ps (Branch environment)")
  have copy: "emits (\<lambda>c. \<not> isUpdatePullRequest c)
      (case snd (GetPreviousEnvironmentStatusByBranch ps (Branch environment)) of
         None \<Rightarrow> ret ()
       | Some previous \<Rightarrow>
           andThen (orPanic (deref (proposedCommitMap (Branch environment)))) (\<lambda>pc.
             if Sha (Dry (Active previous)) = Sha (pcb_Dry (pc_Proposed (pc_Status pc)))
             then copyCommitStatuses w
                    (env_ActiveCommitStatuses environment @ ActiveCommitStatuses (ps_Spec ps))
                    (Sha (Hydrated (Active previous)))
                    (Sha (pcb_Hydrated (pc_Proposed (pc_Status pc))))
                    (es_Branch previous)
             else ret ()))"
    by (auto simp: emits_copyCommitStatuses intro!: emits_intros split: option.split)
  show ?thesis
    unfolding Reconcile_environment_def Let_def e prod.case
    apply (rule emits_andThen [OF copy])
    apply (rule emits_andThen_orPanic)
    using assms unfolding e by (auto simp: emits_ret)
qed

text \<open>
  \<open>Reconcile\<close> updates pull requests nowhere but in the passes of its second loop: the
  calls of \<open>createOrGetProposedCommit\<close>, of \<open>calculateStatus\<close> and the final status update
  are of other kinds.  Each pass runs for an environment of the spec of the strategy that the
  first \<open>Get\<close> has returned, on the status that \<open>calculateStatus\<close> has returned for it.
\<close>

lemma emits_mono: "emits P m \<Longrightarrow> (\<And>c. P c \<Longrightarrow> Q c) \<Longrightarrow> emits Q m"
  unfolding emits_def list_all_iff by blast

lemma emits_createOrGetProposedCommit_wait:
  "emits (\<lambda>c. \<not> isUpdatePullRequest c) (createOrGetProposedCommit_wait fuel w k)"
proof (induction fuel)
  case 0
  show ?case by (simp add: emits_outOfFuel)
next
  case (Suc fuel)
  have sleep: "emits (\<lambda>c. \<not> isUpdatePullRequest c)
      (\<lambda>log. perform (Sleep (on_rand_Intn w log 1000)) (\<lambda>_. ()) log)"
    by (simp add: emits_def perform_def)
  show ?case
    by (auto simp: Suc client_Get_ProposedCommit_def sleep
        intro!: emits_intros split: sum.split)
qed

lemma emits_createOrGetProposedCommit:
  "emits (\<lambda>c. \<not> isUpdatePullRequest c) (createOrGetProposedCommit fuel w ps environment)"
  unfolding createOrGetProposedCommit_def
  by (auto simp: client_Get_ProposedCommit_def client_Create_ProposedCommit_def
        emits_createOrGetProposedCommit_wait
      intro!: emits_intros split: sum.split)

lemma emits_Reconcile_proposedCommits:
  "emits (\<lambda>c. \<not> isUpdatePullRequest c) (Reconcile_proposedCommits fuel w ps envs m)"
  by (induction envs arbitrary: m)
     (auto simp: emits_createOrGetProposedCommit intro!: emits_intros)

lemma emits_calculateStatus_keys:
  "emits (\<lambda>c. \<not> isUpdatePullRequest c) (calculateStatus_keys w sha setter i keys acc)"
proof (induction keys arbitrary: acc)
  case Nil
  show ?case by (cases acc) (simp add: emits_ret)
next
  case (Cons status rest)
  show ?case
    by (cases acc)
       (auto simp: Cons client_List_CommitStatus_def Let_def
          intro!: emits_intros split: sum.split)
qed

lemma emits_calculateStatus_environment:
  "emits (\<lambda>c. \<not> isUpdatePullRequest c) (calculateStatus_environment w pcMap ps environment)"
  unfolding calculateStatus_environment_def Let_def
  by (auto simp: emits_calculateStatus_keys intro!: emits_intros split: option.split)

lemma emits_calculateStatus:
  "emits (\<lambda>c. \<not> isUpdatePullRequest c) (calculateStatus w ps pcMap)"
proof -
  have "emits (\<lambda>c. \<not> isUpdatePullRequest c) (calculateStatus_loop w pcMap envs ps0)"
    for envs ps0
    by (induction envs arbitrary: ps0)
       (auto simp: emits_calculateStatus_environment intro!: emits_intros)
  then show ?thesis by (simp add: calculateStatus_def)
qed

lemma emits_Reconcile_environment_any:
  "emits (\<lambda>c. True) (Reconcile_environment w ps proposedCommitMap environment)"
proof -
  have copy: "emits (\<lambda>c. True) (copyCommitStatuses w sel a b br)" for sel a b br
    by (rule emits_mono [OF emits_copyCommitStatuses]) simp
  have merge: "emits (\<lambda>c. True) (Reconcile_merge w item)" for item
    unfolding Reconcile_merge_def Let_def
    by (auto simp: client_Get_PullRequest_def client_Update_PullRequest_def
        intro!: emits_intros split: sum.split)
  obtain environmentIndex environmentStatus
    where e: "GetEnvironmentStatusByBranch ps (Branch environment)
                = (environmentIndex, environmentStatus)"
    by (cases "GetEnvironmentStatusByBranch ps (Branch environment)")
  show ?thesis
    unfolding Reconcile_environment_def Let_def e prod.case
    by (auto simp: copy merge client_List_PullRequest_def
        intro!: emits_intros emits_RetryOnConflict split: option.split sum.split)
qed

lemma emits_andThen_returned:
  assumes m: "emits Q m" and f: "\<And>x log log'. m log = (Return x, log') \<Longrightarrow> emits Q (f x)"
  shows "emits Q (andThen m f)"
  unfolding emits_def
proof
  fix log
  from m obtain new where new: "snd (m log) = log @ new" "list_all Q new"
    unfolding emits_def by blast
  show "\<exists>new. snd (andThen m f log) = log @ new \<and> list_all Q new"
  proof (cases "m log")
    case (Pair out log1)
    with new have log1: "log1 = log @ new" by simp
    show ?thesis
    proof (cases out)
      case (Return x)
      with Pair have "m log = (Return x, log1)" by simp
      from f [OF this] obtain new' where "snd (f x log1) = log1 @ new'" "list_all Q new'"
        unfolding emits_def by blast
      with Pair Return log1 new(2) show ?thesis
        by (intro exI [of _ "new @ new'"]) (simp add: andThen_def)
    qed (use Pair log1 new(2) in \<open>auto simp: andThen_def\<close>)
  qed
qed

lemma not_update_issuedInPass: "\<not> isUpdatePullRequest c \<Longrightarrow> issuedInPass fuel w ps c"
  by (auto simp: issuedInPass_def)

lemma emits_Reconcile_environments_nth:
  "(\<And>k. k < length envs \<Longrightarrow> emits Q (Reconcile_environment w ps m (envs ! k)))
     \<Longrightarrow> emits Q (Reconcile_environments w ps m envs)"
proof (induction envs)
  case Nil
  show ?case by (simp add: emits_ret)
next
  case (Cons environment rest)
  have "emits Q (Reconcile_environment w ps m environment)"
    using Cons.prems [of 0] by simp
  moreover have "emits Q (Reconcile_environments w ps m rest)"
    using Cons.prems [of "Suc k" for k] by (intro Cons.IH) simp
  ultimately show ?case
    by (simp add: emits_andThen)
qed

lemma emits_Reconcile_found:
  "emits (issuedInPass fuel w ps)
     (andThen (Reconcile_proposedCommits fuel w ps (Environments (ps_Spec ps)) Map.empty)
        (\<lambda>proposedCommitMap.
      andThen (calculateStatus w ps proposedCommitMap) (\<lambda>ps.
      andThen (Reconcile_environments w ps proposedCommitMap (Environments (ps_Spec ps))) (\<lambda>_.
      andThen (check (client_Update_PromotionStrategy_Status w ps)) (\<lambda>_.
        ret \<lparr>Requeue = True, RequeueAfter = 10 * Second\<rparr>)))))"
proof (rule emits_andThen_returned)
  show "emits (issuedInPass fuel w ps)
      (Reconcile_proposedCommits fuel w ps (Environments (ps_Spec ps)) Map.empty)"
    by (rule emits_mono [OF emits_Reconcile_proposedCommits]) (rule not_update_issuedInPass)
next
  fix proposedCommitMap lp lp'
  assume pcs: "Reconcile_proposedCommits fuel w ps (Environments (ps_Spec ps)) Map.empty lp
      = (Return proposedCommitMap, lp')"
  show "emits (issuedInPass fuel w ps)
      (andThen (calculateStatus w ps proposedCommitMap) (\<lambda>ps.
       andThen (Reconcile_environments w ps proposedCommitMap (Environments (ps_Spec ps))) (\<lambda>_.
       andThen (check (client_Update_PromotionStrategy_Status w ps)) (\<lambda>_.
         ret \<lparr>Requeue = True, RequeueAfter = 10 * Second\<rparr>))))"
  proof (rule emits_andThen_returned)
    show "emits (issuedInPass fuel w ps) (calculateStatus w ps proposedCommitMap)"
      by (rule emits_mono [OF emits_calculateStatus]) (rule not_update_issuedInPass)
  next
    fix ps' lc lc'
    assume calc: "calculateStatus w ps proposedCommitMap lc = (Return ps', lc')"
    from calculateStatus_branches(1) [OF calc] have spec: "ps_Spec ps' = ps_Spec ps" .
    have pass: "emits (issuedInPass fuel w ps)
        (Reconcile_environment w ps' proposedCommitMap (Environments (ps_Spec ps) ! k))"
      if k: "k < length (Environments (ps_Spec ps))" for k
      unfolding emits_def
    proof
      fix log
      from emits_Reconcile_environment_any
        [of w ps' proposedCommitMap "Environments (ps_Spec ps) ! k"]
      obtain new
        where new: "snd (Reconcile_environment w ps' proposedCommitMap
            (Environments (ps_Spec ps) ! k) log) = log @ new"
        unfolding emits_def by blast
      have "list_all (issuedInPass fuel w ps) new"
        unfolding list_all_iff issuedInPass_def
      proof (intro ballI allI impI)
        fix c pr
        assume "c \<in> set new" "c = Update_PullRequest pr"
        then have "Update_PullRequest pr \<in> set (drop (length log)
            (snd (Reconcile_environment w ps' proposedCommitMap
                    (Environments (ps_Spec ps) ! k) log)))"
          by (simp add: new)
        with pcs calc k
        show "\<exists>proposedCommitMap ps' k.
           (\<exists>log log'. Reconcile_proposedCommits fuel w ps (Environments (ps_Spec ps)) Map.empty log
                          = (Return proposedCommitMap, log'))
         \<and> (\<exists>log log'. calculateStatus w ps proposedCommitMap log = (Return ps', log'))
         \<and> k < length (Environments (ps_Spec ps))
         \<and> (\<exists>log. Update_PullRequest pr
               \<in> set (drop (length log)
                   (snd (Reconcile_environment w ps' proposedCommitMap
                           (Environments (ps_Spec ps) ! k) log))))"
          by blast
      qed
      with new show "\<exists>new. snd (Reconcile_environment w ps' proposedCommitMap
          (Environments (ps_Spec ps) ! k) log) = log @ new
          \<and> list_all (issuedInPass fuel w ps) new"
        by blast
    qed
    have "emits (issuedInPass fuel w ps)
        (Reconcile_environments w ps' proposedCommitMap (Environments (ps_Spec ps)))"
      by (rule emits_Reconcile_environments_nth) (rule pass)
    then show "emits (issuedInPass fuel w ps)
        (andThen (Reconcile_environments w ps' proposedCommitMap (Environments (ps_Spec ps'))) (\<lambda>_.
         andThen (check (client_Update_PromotionStrategy_Status w ps')) (\<lambda>_.
           ret \<lparr>Requeue = True, RequeueAfter = 10 * Second\<rparr>)))"
      unfolding spec
      by (auto simp: client_Update_PromotionStrategy_Status_def not_update_issuedInPass
          intro!: emits_intros)
  qed
qed

lemma Reconcile_update_in_pass:
  assumes run: "Reconcile fuel w req log = (out, log')"
    and new: "Update_PullRequest pr \<in> set (drop (length log) log')"
  shows "\<exists>ps proposedCommitMap ps' k.
           on_Get_PromotionStrategy w log req = Inr ps
         \<and> (\<exists>l l'. Reconcile_proposedCommits fuel w ps (Environments (ps_Spec ps)) Map.empty l
                      = (Return proposedCommitMap, l'))
         \<and> (\<exists>l l'. calculateStatus w ps proposedCommitMap l = (Return ps', l'))
         \<and> k < length (Environments (ps_Spec ps))
         \<and> (\<exists>l. Update_PullRequest pr
               \<in> set (drop (length l)
                   (snd (Reconcile_environment w ps' proposedCommitMap
                           (Environments (ps_Spec ps) ! k) l))))"
proof (cases "on_Get_PromotionStrategy w log req")
  case (Inl e)
  with run have "log' = log @ [Get_PromotionStrategy req]"
    by (auto simp: Reconcile_def client_Get_PromotionStrategy_def perform_def andThen_def
          ret_def throw_def split: if_splits)
  with new show ?thesis by simp
next
  case (Inr ps)
  define body where "body =
     andThen (Reconcile_proposedCommits fuel w ps (Environments (ps_Spec ps)) Map.empty)
        (\<lambda>proposedCommitMap.
      andThen (calculateStatus w ps proposedCommitMap) (\<lambda>ps.
      andThen (Reconcile_environments w ps proposedCommitMap (Environments (ps_Spec ps))) (\<lambda>_.
      andThen (check (client_Update_PromotionStrategy_Status w ps)) (\<lambda>_.
        ret \<lparr>Requeue = True, RequeueAfter = 10 * Second\<rparr>))))"
  have emits: "emits (issuedInPass fuel w ps) body"
    unfolding body_def by (rule emits_Reconcile_found)
  from run Inr have body: "body (log @ [Get_PromotionStrategy req]) = (out, log')"
    by (simp add: Reconcile_def client_Get_PromotionStrategy_def perform_def andThen_def
          body_def)
  from emits obtain new' where new': "log' = (log @ [Get_PromotionStrategy req]) @ new'"
    unfolding emits_def using body by (metis snd_conv)
  with new have "Update_PullRequest pr \<in> set (drop (length (log @ [Get_PromotionStrategy req])) log')"
    by auto
  from emits_new [OF emits body this] Inr show ?thesis
    unfolding issuedInPass_def by blast
qed

text \<open>
  The gate of a later pass.  In a strategy whose environments have distinct branches, when the
  pass for the environment at position \<open>k > 0\<close> of the spec, run on the status that
  \<open>calculateStatus\<close> has returned, updates a pull request, then \<open>activeChecksPassed\<close> has held
  of a status entry of the environment at position \<open>k - 1\<close> and one of the environment at
  position \<open>k\<close>.  With \<open>Reconcile_update_in_pass\<close>: whatever pull request a run of \<open>Reconcile\<close>
  updates, it updates in the pass of some environment of the spec, and unless that is the
  first one, behind this gate.
\<close>

lemma activeChecksPassed_True:
  "activeChecksPassed (Some previous) pcRef (Some current) = Inr True
     \<longleftrightarrow> (\<exists>pc. pcRef = Some pc
            \<and> rollup_State (CommitStatus (Active previous)) = ''success''
            \<and> Sha (Dry (Active previous)) = Sha (pcb_Dry (pc_Proposed (pc_Status pc)))
            \<and> CommitTime (Dry (Active previous)) > CommitTime (Dry (Active current)))"
  by (auto simp: activeChecksPassed_def deref_def split: option.splits)

lemma later_pass_update_behind_gate:
  assumes status: "calculateStatus w ps proposedCommitMap log0 = (Return ps', log1)"
    and distinct: "distinct (map Branch (Environments (ps_Spec ps)))"
    and k: "0 < k" "k < length (Environments (ps_Spec ps))"
    and run: "Reconcile_environment w ps' proposedCommitMap (Environments (ps_Spec ps) ! k) log
                = (out, log')"
    and new: "Update_PullRequest pr \<in> set (drop (length log) log')"
  shows "\<exists>previous current.
           previous \<in> set (ps_Status ps')
         \<and> es_Branch previous = Branch (Environments (ps_Spec ps) ! (k - 1))
         \<and> current \<in> set (ps_Status ps')
         \<and> es_Branch current = Branch (Environments (ps_Spec ps) ! k)
         \<and> activeChecksPassed (Some previous)
              (proposedCommitMap (Branch (Environments (ps_Spec ps) ! k))) (Some current)
             = Inr True"
proof -
  define environment where "environment = Environments (ps_Spec ps) ! k"
  from calculateStatus_branches(1,2) [OF status]
  have spec: "ps_Spec ps' = ps_Spec ps"
    and covered: "Branch ` set (Environments (ps_Spec ps')) \<subseteq> es_Branch ` set (ps_Status ps')"
    by simp_all
  from ordered_lookup [of ps' k] distinct covered k spec
  obtain i current previous
    where lookup: "GetEnvironmentStatusByBranch ps' (Branch environment) = (i, Some current)"
      "i \<noteq> 0" "current \<in> set (ps_Status ps')" "es_Branch current = Branch environment"
      "snd (GetPreviousEnvironmentStatusByBranch ps' (Branch environment)) = Some previous"
      "previous \<in> set (ps_Status ps')"
      "es_Branch previous = Branch (Environments (ps_Spec ps) ! (k - 1))"
    unfolding environment_def by auto
  have "activeChecksPassed (Some previous) (proposedCommitMap (Branch environment)) (Some current)
      = Inr True"
  proof (rule ccontr)
    assume "\<not> ?thesis"
    with lookup have "emits (\<lambda>c. \<not> isUpdatePullRequest c)
        (Reconcile_environment w ps' proposedCommitMap environment)"
      by (intro Reconcile_environment_no_update) simp
    from emits_new [OF this run [folded environment_def] new] show False by simp
  qed
  with lookup show ?thesis
    unfolding environment_def by blast
qed

lemma Reconcile_merges_behind_gate:
  assumes run: "Reconcile fuel w req log = (out, log')"
    and new: "Update_PullRequest pr \<in> set (drop (length log) log')"
  shows "\<exists>ps proposedCommitMap ps' k.
           on_Get_PromotionStrategy w log req = Inr ps
         \<and> (\<exists>l l'. calculateStatus w ps proposedCommitMap l = (Return ps', l'))
         \<and> k < length (Environments (ps_Spec ps))
         \<and> (\<exists>l. Update_PullRequest pr
               \<in> set (drop (length l)
                   (snd (Reconcile_environment w ps' proposedCommitMap
                           (Environments (ps_Spec ps) ! k) l))))
         \<and> (distinct (map Branch (Environments (ps_Spec ps))) \<and> 0 < k \<longrightarrow>
              (\<exists>previous current pc.
                 previous \<in> set (ps_Status ps')
               \<and> es_Branch previous = Branch (Environments (ps_Spec ps) ! (k - 1))
               \<and> current \<in> set (ps_Status ps')
               \<and> es_Branch current = Branch (Environments (ps_Spec ps) ! k)
               \<and> proposedCommitMap (Branch (Environments (ps_Spec ps) ! k)) = Some pc
               \<and> rollup_State (CommitStatus (Active previous)) = ''success''
               \<and> Sha (Dry (Active previous)) = Sha (pcb_Dry (pc_Proposed (pc_Status pc)))
               \<and> CommitTime (Dry (Active previous)) > CommitTime (Dry (Active current))))"
proof -
  from Reconcile_update_in_pass [OF run new]
  obtain ps proposedCommitMap ps' k l0 l1 l
    where found: "on_Get_PromotionStrategy w log req = Inr ps"
      and status: "calculateStatus w ps proposedCommitMap l0 = (Return ps', l1)"
      and k: "k < length (Environments (ps_Spec ps))"
      and issued: "Update_PullRequest pr
               \<in> set (drop (length l)
                   (snd (Reconcile_environment w ps' proposedCommitMap
                           (Environments (ps_Spec ps) ! k) l)))"
    by blast
  have gate: "\<exists>previous current pc.
                 previous \<in> set (ps_Status ps')
               \<and> es_Branch previous = Branch (Environments (ps_Spec ps) ! (k - 1))
               \<and> current \<in> set (ps_Status ps')
               \<and> es_Branch current = Branch (Environments (ps_Spec ps) ! k)
               \<and> proposedCommitMap (Branch (Environments (ps_Spec ps) ! k)) = Some pc
               \<and> rollup_State (CommitStatus (Active previous)) = ''success''
               \<and> Sha (Dry (Active previous)) = Sha (pcb_Dry (pc_Proposed (pc_Status pc)))
               \<and> CommitTime (Dry (Active previous)) > CommitTime (Dry (Active current))"
    if "distinct (map Branch (Environments (ps_Spec ps)))" "0 < k"
  proof -
    have "Reconcile_environment w ps' proposedCommitMap (Environments (ps_Spec ps) ! k) l
        = (fst (Reconcile_environment w ps' proposedCommitMap (Environments (ps_Spec ps) ! k) l),
           snd (Reconcile_environment w ps' proposedCommitMap (Environments (ps_Spec ps) ! k) l))"
      by simp
    from later_pass_update_behind_gate [OF status that(1) that(2) k this issued]
    show ?thesis
      unfolding activeChecksPassed_True by blast
  qed
  from found status k issued gate show ?thesis
    by blast
qed

subsection \<open>Runs on the example clusters\<close>

lemmas action_simps =
  andThen_def ret_def throw_def orPanic_def perform_def check_def outOfFuel_def

lemmas client_simps =
  client_Get_PromotionStrategy_def client_Get_ProposedCommit_def client_Create_ProposedCommit_def
  client_List_CommitStatus_def client_Get_CommitStatus_def client_Create_CommitStatus_def
  client_Update_CommitStatus_def client_List_PullRequest_def client_Get_PullRequest_def
  client_Update_PullRequest_def client_Update_PromotionStrategy_Status_def
  client_Delete_PullRequest_def client_Update_PullRequest_Status_def client_Get_ScmProvider_def
  client_Get_Secret_def

lemmas demo_simps =
  demoCluster_def snapshotWorld_def demoStrategy_def demoEnvironment_def demoRepo_def
  demoDevPC_def demoTestPC_def demoProposedCommit_def healthDev_def demoCommitStatus_def
  demoDevPR_def demoTestPR_def demoPullRequest_def demoPCMap_def demoReconciled_def
  demoTestStatus_def demoEnvironmentStatus_def proposedHealthDev_def demoTestSelector_def
  demoDevSelector_def merged_def matchLabels_def getLabel_def finalizerName_def

lemmas label_simps =
  KubeSafeLabel_def TruncateStringFromBeginning_def index_def isAlnum_def

lemmas lookup_simps =
  GetEnvironmentStatusByBranch_def GetPreviousEnvironmentStatusByBranch_def
  GetEnvironmentsFromStatusInOrder_def UpsertEnvironmentStatus_def

lemma demo_calculateStatus:
  "calculateStatus demoCluster demoStrategy demoPCMap log
     = (Return demoReconciled,
        log @ [List_CommitStatus ''health'' ''h-dev'', List_CommitStatus ''health'' ''h-test''])"
  by (simp add: calculateStatus_def calculateStatus_environment_def demo_simps lookup_simps
        initialEnvironmentStatus_def setProposedCommitStatus_def setActiveCommitStatus_def
        setActiveCommitStatusState_def setProposedCommitStatusState_def notCopies_def
        firstNotSuccess_def label_simps action_simps client_simps Let_def)

lemma demo_Reconcile_environment_dev:
  "Reconcile_environment demoCluster demoReconciled demoPCMap (demoEnvironment ''env/dev'') log
     = (Return (),
        log @ [List_PullRequest demoDevSelector,
               Get_PullRequest (''default'', ''pr-dev''),
               Update_PullRequest (merged demoDevPR)])"
  by (simp add: Reconcile_environment_def demo_simps lookup_simps activeChecksPassed_def
        proposedChecksPassed_def deref_def GetAutoMerge_def Reconcile_merge_def
        DefaultRetry_Steps_def numeral_eq_Suc
        PullRequestOpen_def PullRequestMerged_def
        label_simps action_simps client_simps Let_def)

lemma demo_Reconcile_environment_test:
  "Reconcile_environment demoCluster demoReconciled demoPCMap (demoEnvironment ''env/test'') log
     = (Return (),
        log @ [List_CommitStatus ''health'' ''h-dev'',
               Get_CommitStatus (''default'', ''proposed-health-dev''),
               Create_CommitStatus proposedHealthDev,
               List_PullRequest demoTestSelector,
               Get_PullRequest (''default'', ''pr-test''),
               Update_PullRequest (merged demoTestPR)])"
  by (simp add: Reconcile_environment_def demo_simps lookup_simps activeChecksPassed_def
        proposedChecksPassed_def deref_def GetAutoMerge_def Reconcile_merge_def
        DefaultRetry_Steps_def numeral_eq_Suc setCopyLabels_def setLabel_def commitUrl_def
        PullRequestOpen_def PullRequestMerged_def
        label_simps action_simps client_simps Let_def)

lemma demo_pcName_dev: "KubeSafeUniqueName ''demo-env/dev'' = Inr ''demo-env-dev-475fa186''"
proof -
  have s: "strings_ToLower (m1_ReplaceAllString ''demo-env/dev'') = ''demo-env-dev''"
    by (simp add: strings_ToLower_def toLowerByte_def isAlnum_def)
  have h: "fmt_x (unat (fnv32a_Write fnv_New32a ''demo-env-dev'')) = ''475fa186''"
    by (simp add: fnv_New32a_def fnv_prime32_def fmt_x.simps hexDigit_def)
  have t: "TruncateString ''demo-env-dev-475fa186'' 246 = ''demo-env-dev-475fa186''"
    by (simp add: TruncateString_def runes.simps runeWidth_def)
  show ?thesis
    unfolding KubeSafeUniqueName_def Let_def s h
    by (simp add: index_def t)
qed

lemma demo_pcName_test: "KubeSafeUniqueName ''demo-env/test'' = Inr ''demo-env-test-7ab2bb53''"
proof -
  have s: "strings_ToLower (m1_ReplaceAllString ''demo-env/test'') = ''demo-env-test''"
    by (simp add: strings_ToLower_def toLowerByte_def isAlnum_def)
  have h: "fmt_x (unat (fnv32a_Write fnv_New32a ''demo-env-test'')) = ''7ab2bb53''"
    by (simp add: fnv_New32a_def fnv_prime32_def fmt_x.simps hexDigit_def)
  have t: "TruncateString ''demo-env-test-7ab2bb53'' 246 = ''demo-env-test-7ab2bb53''"
    by (simp add: TruncateString_def runes.simps runeWidth_def)
  show ?thesis
    unfolding KubeSafeUniqueName_def Let_def s h
    by (simp add: index_def t)
qed

lemma demo_createOrGetProposedCommit_dev:
  "createOrGetProposedCommit (Suc 0) demoCluster demoStrategy (demoEnvironment ''env/dev'') log
     = (Return demoDevPC,
        log @ [Get_ProposedCommit (''default'', ''demo-env-dev-475fa186''),
               Get_ProposedCommit (''default'', ''demo-env-dev-475fa186'')])"
proof -
  have n: "KubeSafeUniqueName (ps_Name demoStrategy @ ''-'' @ Branch (demoEnvironment ''env/dev''))
             = Inr ''demo-env-dev-475fa186''"
    using demo_pcName_dev by (simp add: demoStrategy_def demoEnvironment_def)
  show ?thesis
    unfolding createOrGetProposedCommit_def n
    by (simp add: demo_simps action_simps client_simps)
qed

lemma demo_createOrGetProposedCommit_test:
  "createOrGetProposedCommit (Suc 0) demoCluster demoStrategy (demoEnvironment ''env/test'') log
     = (Return demoTestPC,
        log @ [Get_ProposedCommit (''default'', ''demo-env-test-7ab2bb53''),
               Get_ProposedCommit (''default'', ''demo-env-test-7ab2bb53'')])"
proof -
  have n: "KubeSafeUniqueName (ps_Name demoStrategy @ ''-'' @ Branch (demoEnvironment ''env/test''))
             = Inr ''demo-env-test-7ab2bb53''"
    using demo_pcName_test by (simp add: demoStrategy_def demoEnvironment_def)
  show ?thesis
    unfolding createOrGetProposedCommit_def n
    by (simp add: demo_simps action_simps client_simps)
qed

lemma demo_Reconcile:
  "Reconcile 1 demoCluster (''default'', ''demo'') []
     = (Return \<lparr>Requeue = True, RequeueAfter = 10 * Second\<rparr>,
        [Get_PromotionStrategy (''default'', ''demo''),
         Get_ProposedCommit (''default'', ''demo-env-dev-475fa186''),
         Get_ProposedCommit (''default'', ''demo-env-dev-475fa186''),
         Get_ProposedCommit (''default'', ''demo-env-test-7ab2bb53''),
         Get_ProposedCommit (''default'', ''demo-env-test-7ab2bb53''),
         List_CommitStatus ''health'' ''h-dev'',
         List_CommitStatus ''health'' ''h-test'',
         List_PullRequest demoDevSelector,
         Get_PullRequest (''default'', ''pr-dev''),
         Update_PullRequest (merged demoDevPR),
         List_CommitStatus ''health'' ''h-dev'',
         Get_CommitStatus (''default'', ''proposed-health-dev''),
         Create_CommitStatus proposedHealthDev,
         List_PullRequest demoTestSelector,
         Get_PullRequest (''default'', ''pr-test''),
         Update_PullRequest (merged demoTestPR),
         Update_PromotionStrategy_Status demoReconciled])"
proof -
  have g: "on_Get_PromotionStrategy demoCluster [] (''default'', ''demo'') = Inr demoStrategy"
    by (simp add: demoCluster_def snapshotWorld_def demoStrategy_def)
  have u: "\<And>log ps. on_Update_PromotionStrategy_Status demoCluster log ps = None"
    by (simp add: demoCluster_def snapshotWorld_def)
  have e: "Environments (ps_Spec demoStrategy)
             = [demoEnvironment ''env/dev'', demoEnvironment ''env/test'']"
          "Environments (ps_Spec demoReconciled)
             = [demoEnvironment ''env/dev'', demoEnvironment ''env/test'']"
    by (simp_all add: demoStrategy_def demoReconciled_def)
  have b: "Branch (demoEnvironment ''env/dev'') = ''env/dev''"
          "Branch (demoEnvironment ''env/test'') = ''env/test''"
    by (simp_all add: demoEnvironment_def)
  have m: "[''env/dev'' \<mapsto> demoDevPC, ''env/test'' \<mapsto> demoTestPC] = demoPCMap"
    by (simp add: demoPCMap_def)
  show ?thesis
    unfolding Reconcile_def client_Get_PromotionStrategy_def client_Update_PromotionStrategy_Status_def
    by (simp add: action_simps g u e b m demo_createOrGetProposedCommit_dev
          demo_createOrGetProposedCommit_test calculateStatus_def [symmetric]
          demo_calculateStatus demo_Reconcile_environment_dev demo_Reconcile_environment_test)
qed

lemmas repeated_simps =
  repeatedStrategy_def repeatedCluster_def repeatedReconciled_def pendingHealthDev_def
  pendingCluster_def proposedPendingHealthDev_def demoPending_def

lemma repeated_calculateStatus:
  "calculateStatus repeatedCluster repeatedStrategy demoPCMap log
     = (Return repeatedReconciled,
        log @ [List_CommitStatus ''health'' ''h-dev'', List_CommitStatus ''health'' ''h-test'',
               List_CommitStatus ''health'' ''h-dev''])"
  by (simp add: calculateStatus_def calculateStatus_environment_def demo_simps repeated_simps
        lookup_simps
        initialEnvironmentStatus_def setProposedCommitStatus_def setActiveCommitStatus_def
        setActiveCommitStatusState_def setProposedCommitStatusState_def notCopies_def
        firstNotSuccess_def label_simps action_simps client_simps Let_def)



lemma repeated_Reconcile_environment_last:
  "Reconcile_environment repeatedCluster repeatedReconciled demoPCMap (demoEnvironment ''env/dev'') log
     = (Return (),
        log @ [List_PullRequest demoDevSelector,
               Get_PullRequest (''default'', ''pr-dev''),
               Update_PullRequest (merged demoDevPR)])"
  by (simp add: Reconcile_environment_def demo_simps repeated_simps lookup_simps
        activeChecksPassed_def
        proposedChecksPassed_def deref_def GetAutoMerge_def Reconcile_merge_def
        DefaultRetry_Steps_def numeral_eq_Suc
        PullRequestOpen_def PullRequestMerged_def
        label_simps action_simps client_simps Let_def)




lemma pending_calculateStatus:
  "calculateStatus pendingCluster demoStrategy demoPCMap log
     = (Return demoPending,
        log @ [List_CommitStatus ''health'' ''h-dev'', List_CommitStatus ''health'' ''h-test''])"
  by (simp add: calculateStatus_def calculateStatus_environment_def demo_simps repeated_simps
        lookup_simps
        initialEnvironmentStatus_def setProposedCommitStatus_def setActiveCommitStatus_def
        setActiveCommitStatusState_def setProposedCommitStatusState_def notCopies_def
        firstNotSuccess_def label_simps action_simps client_simps Let_def)

lemma pending_Reconcile_environment_test:
  "Reconcile_environment pendingCluster demoPending demoPCMap (demoEnvironment ''env/test'') log
     = (Return (),
        log @ [List_CommitStatus ''health'' ''h-dev'',
               Get_CommitStatus (''default'', ''proposed-health-dev''),
               Create_CommitStatus proposedPendingHealthDev])"
  by (simp add: Reconcile_environment_def demo_simps repeated_simps lookup_simps
        activeChecksPassed_def proposedChecksPassed_def deref_def GetAutoMerge_def
        setCopyLabels_def setLabel_def commitUrl_def
        label_simps action_simps client_simps Let_def)

subsection \<open>The roll-up of the status checks\<close>

text \<open>
  Claim C1.  An environment whose collected list of active checks is empty is to end
  \<open>calculateStatus\<close> with the active rolled-up status \<open>success\<close> and the active hydrated SHA.
  The code does not do this: in that branch it assigns \<open>Proposed.CommitStatus\<close>, not
  \<open>Active.CommitStatus\<close>.  For the strategy with one environment and no checks, the active
  rolled-up status is still \<open>unknown\<close>/\<open>unknown\<close> when \<open>calculateStatus\<close> returns.
\<close>

theorem calculateStatus_no_checks_leaves_active_unknown:
  "calculateStatus (snapshotWorld [] [] [] []) soloStrategy [''env/dev'' \<mapsto> demoDevPC] []
     = (Return (soloStrategy\<lparr>ps_Status :=
          [demoEnvironmentStatus ''env/dev''
             (''d2'', 200) ''h-dev'' (''unknown'', ''unknown'')
             (''d2'', 200) ''p-dev'' (''success'', ''h-dev'')]\<rparr>),
        [])"
  by (simp add: calculateStatus_def calculateStatus_environment_def soloStrategy_def
        demo_simps lookup_simps initialEnvironmentStatus_def setProposedCommitStatus_def
        index_def action_simps Let_def)

text \<open>
  Claim C4.  The roll-up of the proposed checks is to be overridden by the first entry of the
  collected \<open>proposed\<close> list that is not \<open>success\<close>.  The code scans the collected
  \<open>active\<close> list instead (\<open>allActiveCSList\<close>): with the active check \<open>health\<close> successful and
  the proposed check \<open>scan\<close> pending on the proposed hydrated commit, the proposed roll-up
  comes out as \<open>success\<close>, not as \<open>pending\<close> with the SHA of the \<open>scan\<close> status.
\<close>

theorem proposed_rollup_scans_active_list:
  "calculateStatus (snapshotWorld [] [] [healthDev, scanDev] []) gatedStrategy
       [''env/dev'' \<mapsto> demoDevPC] []
     = (Return (gatedStrategy\<lparr>ps_Status :=
          [demoEnvironmentStatus ''env/dev''
             (''d2'', 200) ''h-dev'' (''success'', ''unknown'')
             (''d2'', 200) ''p-dev'' (''success'', ''unknown'')]\<rparr>),
        [List_CommitStatus ''health'' ''h-dev'', List_CommitStatus ''scan'' ''p-dev''])"
  by (simp add: calculateStatus_def calculateStatus_environment_def demo_simps gatedStrategy_def
        scanDev_def lookup_simps
        initialEnvironmentStatus_def setProposedCommitStatus_def setActiveCommitStatus_def
        setActiveCommitStatusState_def setProposedCommitStatusState_def notCopies_def
        firstNotSuccess_def label_simps action_simps client_simps Let_def)

subsection \<open>Copying statuses forward\<close>

text \<open>
  Claim C5.  One call of \<open>copyCommitStatuses\<close> is to create or update the copy of every
  matching status of every key.  The code returns from the function right after the first
  \<open>Create\<close>: with the two keys \<open>health\<close> and \<open>perf\<close>, one status each on the hydrated commit
  and no copy yet, the run lists \<open>health\<close>, creates \<open>proposed-health-dev\<close> and returns; the
  key \<open>perf\<close> is never listed and \<open>proposed-perf-dev\<close> is neither created nor updated.
\<close>

theorem copyCommitStatuses_stops_after_first_create:
  "copyCommitStatuses (snapshotWorld [] [] [healthDev, perfDev] [])
       [\<lparr>Key = ''health''\<rparr>, \<lparr>Key = ''perf''\<rparr>] ''h-dev'' ''p-test'' ''env/dev'' []
     = (Return (),
        [List_CommitStatus ''health'' ''h-dev'',
         Get_CommitStatus (''default'', ''proposed-health-dev''),
         Create_CommitStatus proposedHealthDev])"
  by (simp add: demo_simps perfDev_def setCopyLabels_def setLabel_def commitUrl_def
        label_simps action_simps client_simps Let_def)

subsection \<open>The merge decision of the PromotionStrategy reconciler\<close>




text \<open>
  Claim C3, as stated: for a non-first environment, an active rolled-up status of that
  environment itself other than \<open>success\<close> keeps its pull request from being merged.  The
  code does not look at the environment's own active status: after \<open>calculateStatus\<close> on the
  demo cluster, \<open>env/test\<close> is at position 1 with the active status
  \<open>no-commit-status-found\<close>, and the pass of the loop for \<open>env/test\<close> updates its open pull
  request to \<open>merged\<close>.  The status it does look at is that of the environment before, and
  only where the branch is found at a position other than 0: in \<open>repeatedStrategy\<close>, where the
  branch \<open>env/dev\<close> comes first and third, the pass of the third environment updates the pull
  request of \<open>env/dev\<close> to \<open>merged\<close> although the one status entry of \<open>env/test\<close>, the
  environment before it, has the active status \<open>no-commit-status-found\<close>.
\<close>

theorem own_active_status_does_not_block_merge:
  "calculateStatus demoCluster demoStrategy demoPCMap []
     = (Return demoReconciled,
        [List_CommitStatus ''health'' ''h-dev'', List_CommitStatus ''health'' ''h-test''])
   \<and> GetEnvironmentStatusByBranch demoReconciled ''env/test'' = (1, Some demoTestStatus)
   \<and> rollup_State (CommitStatus (Active demoTestStatus)) = ''no-commit-status-found''
   \<and> rollup_State (CommitStatus (Active demoTestStatus)) \<noteq> ''success''
   \<and> Reconcile_environment demoCluster demoReconciled demoPCMap (demoEnvironment ''env/test'')
         [List_CommitStatus ''health'' ''h-dev'', List_CommitStatus ''health'' ''h-test'']
     = (Return (),
        [List_CommitStatus ''health'' ''h-dev'', List_CommitStatus ''health'' ''h-test'',
         List_CommitStatus ''health'' ''h-dev'',
         Get_CommitStatus (''default'', ''proposed-health-dev''),
         Create_CommitStatus proposedHealthDev,
         List_PullRequest demoTestSelector,
         Get_PullRequest (''default'', ''pr-test''),
         Update_PullRequest (merged demoTestPR)])
   \<and> prs_State (pr_Spec demoTestPR) = PullRequestOpen
   \<and> prs_State (pr_Spec (merged demoTestPR)) = PullRequestMerged
   \<and> map Branch (Environments (ps_Spec repeatedStrategy)) = [''env/dev'', ''env/test'', ''env/dev'']
   \<and> calculateStatus repeatedCluster repeatedStrategy demoPCMap []
     = (Return repeatedReconciled,
        [List_CommitStatus ''health'' ''h-dev'', List_CommitStatus ''health'' ''h-test'',
         List_CommitStatus ''health'' ''h-dev''])
   \<and> ps_Status repeatedReconciled
     = [demoEnvironmentStatus ''env/dev''
          (''d2'', 200) ''h-dev'' (''success'', ''unknown'')
          (''d2'', 200) ''p-dev'' (''success'', ''h-dev''),
        demoTestStatus]
   \<and> Reconcile_environment repeatedCluster repeatedReconciled demoPCMap
         (Environments (ps_Spec repeatedStrategy) ! 2)
         [List_CommitStatus ''health'' ''h-dev'', List_CommitStatus ''health'' ''h-test'',
          List_CommitStatus ''health'' ''h-dev'']
     = (Return (),
        [List_CommitStatus ''health'' ''h-dev'', List_CommitStatus ''health'' ''h-test'',
         List_CommitStatus ''health'' ''h-dev'',
         List_PullRequest demoDevSelector,
         Get_PullRequest (''default'', ''pr-dev''),
         Update_PullRequest (merged demoDevPR)])"
proof -
  have "GetEnvironmentStatusByBranch demoReconciled ''env/test'' = (1, Some demoTestStatus)"
    by (simp add: demo_simps lookup_simps)
  moreover have "rollup_State (CommitStatus (Active demoTestStatus)) = ''no-commit-status-found''"
    by (simp add: demoTestStatus_def demoEnvironmentStatus_def)
  moreover have "prs_State (pr_Spec demoTestPR) = PullRequestOpen"
      "prs_State (pr_Spec (merged demoTestPR)) = PullRequestMerged"
    by (simp_all add: demoTestPR_def demoPullRequest_def merged_def PullRequestOpen_def
          PullRequestMerged_def)
  moreover have "map Branch (Environments (ps_Spec repeatedStrategy))
      = [''env/dev'', ''env/test'', ''env/dev'']"
    "Environments (ps_Spec repeatedStrategy) ! 2 = demoEnvironment ''env/dev''"
    by (simp_all add: repeatedStrategy_def demoEnvironment_def)
  moreover have "ps_Status repeatedReconciled
     = [demoEnvironmentStatus ''env/dev''
          (''d2'', 200) ''h-dev'' (''success'', ''unknown'')
          (''d2'', 200) ''p-dev'' (''success'', ''h-dev''),
        demoTestStatus]"
    by (simp add: repeatedReconciled_def demoReconciled_def)
  ultimately show ?thesis
    using demo_calculateStatus [of "[]"]
      demo_Reconcile_environment_test
        [of "[List_CommitStatus ''health'' ''h-dev'', List_CommitStatus ''health'' ''h-test'']"]
      repeated_calculateStatus [of "[]"]
      repeated_Reconcile_environment_last
        [of "[List_CommitStatus ''health'' ''h-dev'', List_CommitStatus ''health'' ''h-test'',
              List_CommitStatus ''health'' ''h-dev'']"]
    by simp
qed

text \<open>
  Claim C3, amended: in a strategy whose environments have pairwise distinct branches, for
  every non-first environment, if no status entry of the environment before it in spec order
  has the active rolled-up status \<open>success\<close>, then the pass of the reconcile loop for that
  environment, run on the status that \<open>calculateStatus\<close> has returned, updates no pull
  request: its pull request is not moved from \<open>open\<close> to \<open>merged\<close>.  (When
  \<open>calculateStatus\<close> has returned there is such an entry, and only one where the status
  fetched has one entry per branch.)
\<close>

theorem no_merge_unless_previous_success:
  assumes status: "calculateStatus w ps proposedCommitMap log0 = (Return ps', log1)"
    and distinct: "distinct (map Branch (Environments (ps_Spec ps)))"
    and k: "0 < k" "k < length (Environments (ps_Spec ps))"
    and blocked: "\<forall>previous\<in>set (ps_Status ps').
        es_Branch previous = Branch (Environments (ps_Spec ps) ! (k - 1))
          \<longrightarrow> rollup_State (CommitStatus (Active previous)) \<noteq> ''success''"
    and run: "Reconcile_environment w ps' proposedCommitMap (Environments (ps_Spec ps) ! k) log
                = (out, log')"
  shows "\<forall>pr. Update_PullRequest pr \<notin> set (drop (length log) log')"
proof -
  define environment where "environment = Environments (ps_Spec ps) ! k"
  from calculateStatus_branches(1,2) [OF status]
  have spec: "ps_Spec ps' = ps_Spec ps"
    and covered: "Branch ` set (Environments (ps_Spec ps')) \<subseteq> es_Branch ` set (ps_Status ps')"
    by simp_all
  from ordered_lookup [of ps' k] distinct covered k spec
  obtain i current previous
    where lookup: "GetEnvironmentStatusByBranch ps' (Branch environment) = (i, Some current)"
      "i \<noteq> 0"
      "snd (GetPreviousEnvironmentStatusByBranch ps' (Branch environment)) = Some previous"
      "previous \<in> set (ps_Status ps')"
      "es_Branch previous = Branch (Environments (ps_Spec ps) ! (k - 1))"
    unfolding environment_def by auto
  with blocked have "rollup_State (CommitStatus (Active previous)) \<noteq> ''success''"
    by blast
  then have "activeChecksPassed (Some previous) (proposedCommitMap (Branch environment))
               (Some current) \<noteq> Inr True"
    by (simp add: activeChecksPassed_def)
  with lookup have "emits (\<lambda>c. \<not> isUpdatePullRequest c)
      (Reconcile_environment w ps' proposedCommitMap environment)"
    by (intro Reconcile_environment_no_update) simp
  from emits_new [OF this run [folded environment_def]] show ?thesis by fastforce
qed

theorem no_merge_unless_previous_success_witness:
  "calculateStatus pendingCluster demoStrategy demoPCMap []
     = (Return demoPending,
        [List_CommitStatus ''health'' ''h-dev'', List_CommitStatus ''health'' ''h-test''])
   \<and> distinct (map Branch (Environments (ps_Spec demoStrategy)))
   \<and> Environments (ps_Spec demoStrategy) ! 0 = demoEnvironment ''env/dev''
   \<and> Environments (ps_Spec demoStrategy) ! 1 = demoEnvironment ''env/test''
   \<and> ps_Status demoPending
     = [demoEnvironmentStatus ''env/dev''
          (''d2'', 200) ''h-dev'' (''pending'', ''h-dev'')
          (''d2'', 200) ''p-dev'' (''success'', ''h-dev''),
        demoTestStatus]
   \<and> Reconcile_environment pendingCluster demoPending demoPCMap (demoEnvironment ''env/test'') []
     = (Return (),
        [List_CommitStatus ''health'' ''h-dev'',
         Get_CommitStatus (''default'', ''proposed-health-dev''),
         Create_CommitStatus proposedPendingHealthDev])
   \<and> (\<forall>pr. Update_PullRequest pr \<notin> set (drop (length ([] :: call list))
         [List_CommitStatus ''health'' ''h-dev'',
          Get_CommitStatus (''default'', ''proposed-health-dev''),
          Create_CommitStatus proposedPendingHealthDev]))"
proof -
  have status: "calculateStatus pendingCluster demoStrategy demoPCMap []
     = (Return demoPending,
        [List_CommitStatus ''health'' ''h-dev'', List_CommitStatus ''health'' ''h-test''])"
    using pending_calculateStatus [of "[]"] by simp
  have e: "Environments (ps_Spec demoStrategy) ! 0 = demoEnvironment ''env/dev''"
      "Environments (ps_Spec demoStrategy) ! 1 = demoEnvironment ''env/test''"
      "Environments (ps_Spec demoStrategy) ! (1 - 1) = demoEnvironment ''env/dev''"
    by (simp_all add: demoStrategy_def)
  have distinct: "distinct (map Branch (Environments (ps_Spec demoStrategy)))"
    by (simp add: demoStrategy_def demoEnvironment_def)
  have k: "0 < (1 :: nat)" "1 < length (Environments (ps_Spec demoStrategy))"
    by (simp_all add: demoStrategy_def)
  have entries: "ps_Status demoPending
     = [demoEnvironmentStatus ''env/dev''
          (''d2'', 200) ''h-dev'' (''pending'', ''h-dev'')
          (''d2'', 200) ''p-dev'' (''success'', ''h-dev''),
        demoTestStatus]"
    by (simp add: demoPending_def)
  have blocked: "\<forall>previous\<in>set (ps_Status demoPending).
      es_Branch previous = Branch (Environments (ps_Spec demoStrategy) ! (1 - 1))
        \<longrightarrow> rollup_State (CommitStatus (Active previous)) \<noteq> ''success''"
    unfolding e
    by (simp add: demoPending_def demoStrategy_def demoTestStatus_def demoEnvironmentStatus_def
          demoEnvironment_def)
  have run: "Reconcile_environment pendingCluster demoPending demoPCMap
      (Environments (ps_Spec demoStrategy) ! 1) []
     = (Return (),
        [List_CommitStatus ''health'' ''h-dev'',
         Get_CommitStatus (''default'', ''proposed-health-dev''),
         Create_CommitStatus proposedPendingHealthDev])"
    unfolding e using pending_Reconcile_environment_test [of "[]"] by simp
  from no_merge_unless_previous_success [OF status distinct k blocked run]
    status distinct e(1,2) entries run [unfolded e]
  show ?thesis
    by blast
qed

subsection \<open>What \<open>Reconcile\<close> returns\<close>

text \<open>
  Claim C6: a successful invocation of \<open>Reconcile\<close> returns a requeue-after hint equal to
  the configured requeue duration, 60 seconds by default.  The code does not: whenever the
  PromotionStrategy is found and \<open>Reconcile\<close> returns without error, the result is
  \<open>ctrl.Result{Requeue: true, RequeueAfter: 10 * time.Second}\<close>, a constant of the code, and
  differs from the duration that \<open>cmd/main.go\<close> parses from its flag and configures the
  reconciler with.
\<close>

theorem Reconcile_requeue_after_ignores_configuration:
  assumes "Reconcile fuel w req log = (Return r, log')"
    and "on_Get_PromotionStrategy w log req = Inr ps"
  shows "r = \<lparr>Requeue = True, RequeueAfter = 10 * Second\<rparr>
       \<and> RequeueAfter r \<noteq> promotionStrategyRequeueDuration"
  using assms
  by (auto simp: Reconcile_def client_Get_PromotionStrategy_def perform_def andThen_Return
        ret_def throw_def Second_def promotionStrategyRequeueDuration_def
      split: sum.splits if_splits)

theorem Reconcile_requeue_after_ignores_configuration_witness:
  "fst (Reconcile 1 demoCluster (''default'', ''demo'') [])
     = Return \<lparr>Requeue = True, RequeueAfter = 10 * Second\<rparr>
   \<and> on_Get_PromotionStrategy demoCluster [] (''default'', ''demo'') = Inr demoStrategy
   \<and> RequeueAfter \<lparr>Requeue = True, RequeueAfter = 10 * Second\<rparr> = 10000000000
   \<and> promotionStrategyRequeueDuration = 60000000000
   \<and> RequeueAfter \<lparr>Requeue = True, RequeueAfter = 10 * Second\<rparr>
       \<noteq> promotionStrategyRequeueDuration"
proof -
  have g: "on_Get_PromotionStrategy demoCluster [] (''default'', ''demo'') = Inr demoStrategy"
    by (simp add: demoCluster_def snapshotWorld_def demoStrategy_def)
  from Reconcile_requeue_after_ignores_configuration [OF demo_Reconcile g] g demo_Reconcile
  show ?thesis by (simp add: Second_def promotionStrategyRequeueDuration_def)
qed

subsection \<open>The PullRequest reconciler when the provider has no open pull request\<close>

text \<open>
  Claim C7.  When \<open>Reconcile\<close> of a pull request gets as far as \<open>FindOpen\<close> (the pull request
  is read, its provider is obtained, the finalizer step does not end the invocation), and
  \<open>FindOpen\<close> reports no open pull request while \<open>status.state\<close> is not empty, then the
  next and last call is the \<open>Delete\<close> of that pull request, and the invocation returns
  success with the empty result if the delete succeeds or fails with not-found; any other
  error of the delete is returned.
\<close>

theorem PullRequest_Reconcile_deletes_when_not_open:
  assumes "on_Get_PullRequest w log req = Inr pr0"
    and "getPullRequestProvider w pr0 (log @ [Get_PullRequest req]) = (Return (Some provider), log1)"
    and "handleFinalizer w pr0 (Some provider) log1 = (Return (pr, False), log2)"
    and "on_Provider_FindOpen w log2 provider pr = Inr False"
    and "prst_State (pr_Status pr) \<noteq> []"
  shows "PullRequest_Reconcile w req log =
           ((case on_Delete_PullRequest w (log2 @ [Provider_FindOpen provider pr]) pr of
               None \<Rightarrow> Return emptyResult
             | Some e \<Rightarrow> if e = NotFound then Return emptyResult else Error e),
            log2 @ [Provider_FindOpen provider pr, Delete_PullRequest pr])"
  using assms
  by (simp add: PullRequest_Reconcile_def PullRequest_Reconcile_found_def action_simps
        client_simps split: option.split)

theorem PullRequest_Reconcile_deletes_when_not_open_witness:
  "PullRequest_Reconcile fakeScmCluster (''default'', ''pr-test'') []
     = (Return emptyResult,
        [Get_PullRequest (''default'', ''pr-test''),
         Get_ScmProvider (''default'', ''scm''),
         Get_Secret (''default'', ''scm-secret''),
         Provider_FindOpen FakePullRequestProvider demoTestPR,
         Delete_PullRequest demoTestPR])
   \<and> PullRequest_Reconcile
         (fakeScmCluster\<lparr>on_Delete_PullRequest := (\<lambda>log pr. Some NotFound)\<rparr>)
         (''default'', ''pr-test'') []
     = (Return emptyResult,
        [Get_PullRequest (''default'', ''pr-test''),
         Get_ScmProvider (''default'', ''scm''),
         Get_Secret (''default'', ''scm-secret''),
         Provider_FindOpen FakePullRequestProvider demoTestPR,
         Delete_PullRequest demoTestPR])"
proof -
  define gone where "gone = fakeScmCluster\<lparr>on_Delete_PullRequest := (\<lambda>log pr. Some NotFound)\<rparr>"
  define log1 where "log1 = [Get_PullRequest (''default'', ''pr-test''),
     Get_ScmProvider (''default'', ''scm''), Get_Secret (''default'', ''scm-secret'')]"
  have get: "on_Get_PullRequest fakeScmCluster [] (''default'', ''pr-test'') = Inr demoTestPR"
      "on_Get_PullRequest gone [] (''default'', ''pr-test'') = Inr demoTestPR"
    by (simp_all add: gone_def fakeScmCluster_def snapshotWorld_def demoTestPR_def
          demoPullRequest_def)
  have provider:
      "getPullRequestProvider fakeScmCluster demoTestPR
           ([] @ [Get_PullRequest (''default'', ''pr-test'')])
         = (Return (Some FakePullRequestProvider), log1)"
      "getPullRequestProvider gone demoTestPR
           ([] @ [Get_PullRequest (''default'', ''pr-test'')])
         = (Return (Some FakePullRequestProvider), log1)"
    by (simp_all add: gone_def log1_def getPullRequestProvider_def
          GetScmProviderAndSecretFromRepositoryReference_def
          GetScmProviderFromRepositoryReference_def fakeScmCluster_def snapshotWorld_def
          demoTestPR_def demoPullRequest_def demoRepo_def action_simps client_simps Let_def)
  have finalizer:
      "handleFinalizer fakeScmCluster demoTestPR (Some FakePullRequestProvider) log1
         = (Return (demoTestPR, False), log1)"
      "handleFinalizer gone demoTestPR (Some FakePullRequestProvider) log1
         = (Return (demoTestPR, False), log1)"
    by (simp_all add: handleFinalizer_def demoTestPR_def demoPullRequest_def action_simps)
  have findOpen:
      "on_Provider_FindOpen fakeScmCluster log1 FakePullRequestProvider demoTestPR = Inr False"
      "on_Provider_FindOpen gone log1 FakePullRequestProvider demoTestPR = Inr False"
    by (simp_all add: gone_def fakeScmCluster_def snapshotWorld_def)
  have state: "prst_State (pr_Status demoTestPR) \<noteq> []"
    by (simp add: demoTestPR_def demoPullRequest_def)
  have delete:
      "on_Delete_PullRequest fakeScmCluster
         (log1 @ [Provider_FindOpen FakePullRequestProvider demoTestPR]) demoTestPR = None"
      "on_Delete_PullRequest gone
         (log1 @ [Provider_FindOpen FakePullRequestProvider demoTestPR]) demoTestPR
         = Some NotFound"
    by (simp_all add: gone_def fakeScmCluster_def snapshotWorld_def)
  from PullRequest_Reconcile_deletes_when_not_open
         [OF get(1) provider(1) finalizer(1) findOpen(1) state]
       PullRequest_Reconcile_deletes_when_not_open
         [OF get(2) provider(2) finalizer(2) findOpen(2) state]
       delete
  show ?thesis
    by (simp add: log1_def gone_def)
qed

end
